theory Spec2Isabelle
  imports Complex_Main
begin

section \<open>Settings and history entries (settings.ts)\<close>

text \<open>
  Instants are \<open>Date.now()\<close> readings: integer milliseconds. The duration of an entry is
  the quotient \<open>inactiveTime / 60000\<close>; it is kept as the exact rational (the source
  holds its nearest double), and only ever rendered through \<open>toFixed(1)\<close>.
\<close>

record ClosedTabEntry =
  timestamp :: int
  fileName :: string
  inactiveTimeMinutes :: rat
  filePath :: "string option"

record AutoCloseTabsSettings =
  enabled :: bool
  inactiveTimeoutMinutes :: int
  checkIntervalSeconds :: int
  logHistory :: bool
  logToFile :: bool
  logFilePath :: string
  maxHistoryEntries :: int

definition DEFAULT_SETTINGS :: AutoCloseTabsSettings where
  "DEFAULT_SETTINGS =
     \<lparr>enabled = True, inactiveTimeoutMinutes = 1440, checkIntervalSeconds = 60,
      logHistory = True, logToFile = False,
      logFilePath = ''system/auto-close-tabs-history.md'', maxHistoryEntries = 1000\<rparr>"

section \<open>The host: Obsidian's plugin, vault and workspace API\<close>

text \<open>
  A value that a host call throws (or a promise rejects with): an \<open>Error\<close> instance with
  its message, some other value with its \<open>message\<close> property if it has one, or
  \<open>null\<close>/\<open>undefined\<close>.
\<close>

datatype thrown = ErrorObj string | NonError "string option" | Nullish

text \<open>What \<open>vault.getAbstractFileByPath\<close> finds at a path (\<open>None\<close> is \<open>null\<close>).\<close>

datatype node = TFile | TFolder

text \<open>The object that \<open>loadData\<close> reads and \<open>saveData\<close> writes, by the keys the plugin uses.\<close>

record plugin_data =
  settingsKeys :: "AutoCloseTabsSettings option"
  closedTabsHistory :: "ClosedTabEntry list option"

text \<open>
  The host is a parameter: every call takes the world as it is and returns its outcome
  (\<open>None\<close>: it returned, \<open>Some e\<close>: it threw \<open>e\<close>) with the world as the call left it,
  whatever else changed it meanwhile. Pure helpers of the runtime (path normalisation,
  the locale's renderings of an instant, \<open>toFixed(1)\<close>, the parse
  \<open>new Date(s).getTime()\<close> of a rendered date) are parameters too.
\<close>

record 'w host =
  dateNow :: "'w \<Rightarrow> int"
  loadData :: "'w \<Rightarrow> (thrown + plugin_data option) \<times> 'w"
  saveData :: "plugin_data \<Rightarrow> 'w \<Rightarrow> thrown option \<times> 'w"
  getAbstractFileByPath :: "string \<Rightarrow> 'w \<Rightarrow> node option"
  vault_append :: "string \<Rightarrow> string \<Rightarrow> 'w \<Rightarrow> thrown option \<times> 'w"
  vault_createFolder :: "string \<Rightarrow> 'w \<Rightarrow> thrown option \<times> 'w"
  vault_create :: "string \<Rightarrow> string \<Rightarrow> 'w \<Rightarrow> thrown option \<times> 'w"
  leaf_detach :: "nat \<Rightarrow> 'w \<Rightarrow> thrown option \<times> 'w"

record runtime =
  normalizePath :: "string \<Rightarrow> string"
  toLocaleString :: "int \<Rightarrow> string"
  toLocaleDateString :: "int \<Rightarrow> string"
  toLocaleTimeString :: "int \<Rightarrow> string"
  dateParse :: "string \<Rightarrow> int"
  toFixed1 :: "rat \<Rightarrow> string"

section \<open>JavaScript built-ins used by the plugin\<close>

text \<open>\<open>xs.slice(start)\<close>: a negative start counts from the end, and \<open>-0\<close> is \<open>0\<close>.\<close>

definition js_slice_from :: "int \<Rightarrow> 'a list \<Rightarrow> 'a list" where
  "js_slice_from start xs =
     (let n = int (length xs);
          k = (if start < 0 then max (n + start) 0 else min start n)
      in drop (nat k) xs)"

fun startsWith :: "string \<Rightarrow> string \<Rightarrow> bool" where
  "startsWith s [] = True"
| "startsWith [] (c # cs) = False"
| "startsWith (x # xs) (c # cs) = (x = c \<and> startsWith xs cs)"

text \<open>\<open>s.includes(sub)\<close>\<close>

fun str_includes :: "string \<Rightarrow> string \<Rightarrow> bool" where
  "str_includes [] sub = (sub = [])"
| "str_includes (x # xs) sub = (startsWith (x # xs) sub \<or> str_includes xs sub)"

text \<open>\<open>s.split("/")\<close> and \<open>parts.join("/")\<close>\<close>

fun split_slash :: "string \<Rightarrow> string list" where
  "split_slash [] = [[]]"
| "split_slash (x # xs) =
     (if x = CHR ''/'' then [] # split_slash xs
      else (case split_slash xs of [] \<Rightarrow> [[x]] | p # ps \<Rightarrow> (x # p) # ps))"

fun join_slash :: "string list \<Rightarrow> string" where
  "join_slash [] = []"
| "join_slash [p] = p"
| "join_slash (p # q # ps) = p @ ''/'' @ join_slash (q # ps)"

definition nl :: string where
  "nl = [CHR 0x0A]"

text \<open>The backquote of the Markdown renderings.\<close>

definition bq :: string where
  "bq = [CHR 0x60]"

section \<open>The plugin's state\<close>

text \<open>
  A running interval of the host: its period and the timeout that the callback's closure
  captured when \<open>startPeriodicCheck\<close> created it.
\<close>

record timer =
  periodMs :: int
  capturedTimeoutMs :: int

text \<open>
  One record for the mutable state of the plugin object graph: \<open>plugin.settings\<close>,
  \<open>HistoryManager.history\<close>, the fields of \<open>TabManager\<close> (a leaf is identified by a
  number, so the weak map is a map from leaf numbers), the intervals and event handlers
  registered with the host, and the host's world. \<open>loadSettings\<close> builds
  \<open>plugin.settings\<close> with \<open>Object.assign\<close> from the loaded data, so the settings object
  also carries the \<open>closedTabsHistory\<close> key as it was loaded, if it was there:
  \<open>settingsHistoryKey\<close>. \<open>detachLog\<close> is a trace, not a field of the source: the
  leaves on which \<open>leaf.detach()\<close> was called, in order.
\<close>

record 'w plugin =
  settings :: AutoCloseTabsSettings
  settingsHistoryKey :: "ClosedTabEntry list option"
  history :: "ClosedTabEntry list"
  leafActivityMap :: "nat \<Rightarrow> int option"
  checkInterval :: "nat option"
  timers :: "(nat \<times> timer) list"
  nextTimerId :: nat
  listeners :: nat
  world :: "'w"
  detachLog :: "nat list"

section \<open>HistoryManager (utils/historyManager.ts)\<close>

definition trimHistory :: "AutoCloseTabsSettings \<Rightarrow> ClosedTabEntry list \<Rightarrow> ClosedTabEntry list" where
  "trimHistory s h =
     (if int (length h) > maxHistoryEntries s then js_slice_from (- maxHistoryEntries s) h
      else h)"

definition saveHistory :: "'w host \<Rightarrow> 'w plugin \<Rightarrow> thrown option \<times> 'w plugin" where
  "saveHistory H st =
     (if \<not> logHistory (settings st) then (None, st)
      else
        let st1 = st\<lparr>history := trimHistory (settings st) (history st)\<rparr> in
        (case loadData H (world st1) of
           (Inl e, w1) \<Rightarrow> (Some e, st1\<lparr>world := w1\<rparr>)
         | (Inr loaded, w1) \<Rightarrow>
             let existingData =
                   (case loaded of
                      None \<Rightarrow> \<lparr>settingsKeys = None, closedTabsHistory = None\<rparr>
                    | Some d \<Rightarrow> d)
             in (case saveData H (existingData\<lparr>closedTabsHistory := Some (history st1)\<rparr>) w1 of
                   (r, w2) \<Rightarrow> (r, st1\<lparr>world := w2\<rparr>))))"

definition renderLine :: "runtime \<Rightarrow> string \<Rightarrow> ClosedTabEntry \<Rightarrow> string" where
  "renderLine R stamp entry =
     ''- '' @ bq @ stamp @ bq @ '' - **'' @ fileName entry @ ''** (inactive for ''
       @ toFixed1 R (inactiveTimeMinutes entry) @ '' minutes)''
       @ (case filePath entry of
            None \<Rightarrow> []
          | Some p \<Rightarrow> if p = [] then [] else '' - '' @ bq @ p @ bq)
       @ nl"

definition logFileContent :: "string \<Rightarrow> string" where
  "logFileContent line =
     ''# Auto-Close Tabs Log'' @ nl @ nl
       @ ''This file logs tabs that have been automatically closed by the Auto Close Tabs plugin.''
       @ nl @ nl @ ''---'' @ nl @ nl @ line"

definition mirrorPath :: "runtime \<Rightarrow> AutoCloseTabsSettings \<Rightarrow> string" where
  "mirrorPath R s =
     normalizePath R (if logFilePath s = [] then logFilePath DEFAULT_SETTINGS else logFilePath s)"

text \<open>
  The parent-folder step of \<open>writeToFile\<close>: its inner \<open>try\<close> swallows whatever
  \<open>createFolder\<close> throws (it logs all but "already exists"), so the step returns a world.
\<close>

definition ensureFolder :: "'w host \<Rightarrow> string \<Rightarrow> 'w \<Rightarrow> 'w" where
  "ensureFolder H path w =
     (let pathParts = split_slash path in
      if length pathParts > 1 then
        let folderPath = join_slash (butlast pathParts) in
        if getAbstractFileByPath H folderPath w \<noteq> Some TFolder
        then snd (vault_createFolder H folderPath w)
        else w
      else w)"

text \<open>\<open>e instanceof Error && e.message.includes("already exists")\<close>\<close>

definition isAlreadyExists :: "thrown \<Rightarrow> bool" where
  "isAlreadyExists e =
     (case e of ErrorObj m \<Rightarrow> str_includes m ''already exists'' | _ \<Rightarrow> False)"

text \<open>The body of the outer \<open>try\<close> of \<open>writeToFile\<close>: it can throw.\<close>

definition writeToFile_try ::
  "'w host \<Rightarrow> runtime \<Rightarrow> AutoCloseTabsSettings \<Rightarrow> ClosedTabEntry \<Rightarrow> 'w \<Rightarrow> thrown option \<times> 'w" where
  "writeToFile_try H R s entry w =
     (let path = mirrorPath R s;
          line = renderLine R (toLocaleString R (timestamp entry)) entry
      in
      if getAbstractFileByPath H path w = Some TFile then vault_append H path line w
      else
        (case vault_create H path (logFileContent line) (ensureFolder H path w) of
           (None, w2) \<Rightarrow> (None, w2)
         | (Some createError, w2) \<Rightarrow>
             if isAlreadyExists createError then
               (if getAbstractFileByPath H path w2 = Some TFile
                then vault_append H path line w2
                else (None, w2))
             else (Some createError, w2)))"

text \<open>\<open>writeToFile\<close>: the outer \<open>catch\<close> logs the error and returns.\<close>

definition writeToFile :: "'w host \<Rightarrow> runtime \<Rightarrow> ClosedTabEntry \<Rightarrow> 'w plugin \<Rightarrow> 'w plugin" where
  "writeToFile H R entry st =
     st\<lparr>world := snd (writeToFile_try H R (settings st) entry (world st))\<rparr>"

definition addEntry ::
  "'w host \<Rightarrow> runtime \<Rightarrow> ClosedTabEntry \<Rightarrow> 'w plugin \<Rightarrow> thrown option \<times> 'w plugin" where
  "addEntry H R entry st =
     (if \<not> logHistory (settings st) then (None, st)
      else
        let st1 = st\<lparr>history := trimHistory (settings st) (history st @ [entry])\<rparr> in
        (case saveHistory H st1 of
           (Some e, st2) \<Rightarrow> (Some e, st2)
         | (None, st2) \<Rightarrow>
             if logToFile (settings st) then (None, writeToFile H R entry st2)
             else (None, st2)))"

definition getHistory :: "'w plugin \<Rightarrow> ClosedTabEntry list" where
  "getHistory st = rev (history st)"

definition clearHistory :: "'w plugin \<Rightarrow> 'w plugin" where
  "clearHistory st = st\<lparr>history := []\<rparr>"


text \<open>\<open>String(n)\<close> for a length.\<close>

fun digit_char :: "nat \<Rightarrow> char" where
  "digit_char n = char_of (48 + n)"

fun string_of_nat :: "nat \<Rightarrow> string" where
  "string_of_nat n =
     (if n < 10 then [digit_char n] else string_of_nat (n div 10) @ [digit_char (n mod 10)])"

declare string_of_nat.simps [simp del]

text \<open>
  \<open>grouped[date].push(entry)\<close> on an object used as a dictionary: the keys keep their
  order of first insertion (no locale renders a date as an integer-like key).
\<close>

fun group_push ::
  "string \<Rightarrow> ClosedTabEntry \<Rightarrow> (string \<times> ClosedTabEntry list) list
     \<Rightarrow> (string \<times> ClosedTabEntry list) list" where
  "group_push d e [] = [(d, [e])]"
| "group_push d e ((k, es) # g) =
     (if k = d then (k, es @ [e]) # g else (k, es) # group_push d e g)"

definition groupByDate ::
  "runtime \<Rightarrow> ClosedTabEntry list \<Rightarrow> (string \<times> ClosedTabEntry list) list" where
  "groupByDate R es = foldl (\<lambda>g e. group_push (toLocaleDateString R (timestamp e)) e g) [] es"

text \<open>
  \<open>Object.keys(grouped).sort((a, b) => new Date(b).getTime() - new Date(a).getTime())\<close>:
  the sort is stable, so on dates that parse it is the stable sort by descending instant.
\<close>

definition sortDates :: "runtime \<Rightarrow> string list \<Rightarrow> string list" where
  "sortDates R ds = sort_key (\<lambda>d. - dateParse R d) ds"

definition renderGroup :: "runtime \<Rightarrow> string \<Rightarrow> ClosedTabEntry list \<Rightarrow> string" where
  "renderGroup R date es =
     ''## '' @ date @ nl @ nl
       @ concat (map (\<lambda>e. renderLine R (toLocaleTimeString R (timestamp e)) e) es) @ nl"

text \<open>
  The text that \<open>exportHistory\<close> builds from the entries as stored (\<open>h\<close>), iterating
  over them in reverse.
\<close>

definition exportText :: "runtime \<Rightarrow> ClosedTabEntry list \<Rightarrow> string" where
  "exportText R h =
     (if length h = 0 then ''No closed tabs history.''
      else
        let grouped = groupByDate R (rev h);
            dates = sortDates R (map fst grouped)
        in ''# Auto-Close Tabs History'' @ nl @ nl
             @ ''Total entries: '' @ string_of_nat (length h) @ nl @ nl
             @ ''---'' @ nl @ nl
             @ concat (map (\<lambda>d. renderGroup R d (case map_of grouped d of None \<Rightarrow> [] | Some es \<Rightarrow> es))
                 dates))"

text \<open>
  \<open>exportHistory\<close> as the current revision has it: the loop runs over the copy
  \<open>[...this.history].reverse()\<close>.
\<close>

definition exportHistory :: "runtime \<Rightarrow> 'w plugin \<Rightarrow> string \<times> 'w plugin" where
  "exportHistory R st = (exportText R (history st), st)"

subsection \<open>The revision in src/utils/historyManager.ts\<close>

text \<open>
  This revision differs in \<open>writeToFile\<close> (casts instead of \<open>instanceof\<close>, and
  \<open>e.message?.includes\<close> on a caught value of any type, which itself throws a
  \<open>TypeError\<close> on \<open>null\<close>/\<open>undefined\<close>) and in \<open>exportHistory\<close>, whose loop runs over
  \<open>this.history.reverse()\<close>, reversing the stored array in place.
\<close>

definition typeError :: thrown where
  "typeError = ErrorObj ''TypeError: Cannot read properties of undefined''"

definition ensureFolder_v0 :: "'w host \<Rightarrow> string \<Rightarrow> 'w \<Rightarrow> thrown option \<times> 'w" where
  "ensureFolder_v0 H path w =
     (let pathParts = split_slash path in
      if length pathParts > 1 then
        let folderPath = join_slash (butlast pathParts) in
        if getAbstractFileByPath H folderPath w \<noteq> Some TFolder
        then (case vault_createFolder H folderPath w of
                (Some Nullish, w1) \<Rightarrow> (Some typeError, w1)
              | (_, w1) \<Rightarrow> (None, w1))
        else (None, w)
      else (None, w))"

definition messageIncludes_v0 :: "thrown \<Rightarrow> string \<Rightarrow> bool" where
  "messageIncludes_v0 e sub =
     (case e of
        ErrorObj m \<Rightarrow> str_includes m sub
      | NonError (Some m) \<Rightarrow> str_includes m sub
      | _ \<Rightarrow> False)"

definition writeToFile_try_v0 ::
  "'w host \<Rightarrow> runtime \<Rightarrow> AutoCloseTabsSettings \<Rightarrow> ClosedTabEntry \<Rightarrow> 'w \<Rightarrow> thrown option \<times> 'w" where
  "writeToFile_try_v0 H R s entry w =
     (let path = mirrorPath R s;
          line = renderLine R (toLocaleString R (timestamp entry)) entry
      in
      if getAbstractFileByPath H path w \<noteq> None then vault_append H path line w
      else
        (case ensureFolder_v0 H path w of
           (Some e, w1) \<Rightarrow> (Some e, w1)
         | (None, w1) \<Rightarrow>
             (case vault_create H path (logFileContent line) w1 of
                (None, w2) \<Rightarrow> (None, w2)
              | (Some createError, w2) \<Rightarrow>
                  if createError = Nullish then (Some typeError, w2)
                  else if messageIncludes_v0 createError ''already exists'' then
                    (if getAbstractFileByPath H path w2 \<noteq> None
                     then vault_append H path line w2
                     else (None, w2))
                  else (Some createError, w2))))"

definition writeToFile_v0 :: "'w host \<Rightarrow> runtime \<Rightarrow> ClosedTabEntry \<Rightarrow> 'w plugin \<Rightarrow> 'w plugin" where
  "writeToFile_v0 H R entry st =
     st\<lparr>world := snd (writeToFile_try_v0 H R (settings st) entry (world st))\<rparr>"

definition addEntry_v0 ::
  "'w host \<Rightarrow> runtime \<Rightarrow> ClosedTabEntry \<Rightarrow> 'w plugin \<Rightarrow> thrown option \<times> 'w plugin" where
  "addEntry_v0 H R entry st =
     (if \<not> logHistory (settings st) then (None, st)
      else
        let st1 = st\<lparr>history := trimHistory (settings st) (history st @ [entry])\<rparr> in
        (case saveHistory H st1 of
           (Some e, st2) \<Rightarrow> (Some e, st2)
         | (None, st2) \<Rightarrow>
             if logToFile (settings st) then (None, writeToFile_v0 H R entry st2)
             else (None, st2)))"

definition exportHistory_v0 :: "runtime \<Rightarrow> 'w plugin \<Rightarrow> string \<times> 'w plugin" where
  "exportHistory_v0 R st =
     (if length (history st) = 0 then (''No closed tabs history.'', st)
      else (exportText R (history st), st\<lparr>history := rev (history st)\<rparr>))"


section \<open>TabManager (utils/tabManager.ts)\<close>

text \<open>
  What the manager reads of a leaf: its identity, \<open>getViewState().pinned\<close> and
  \<open>.type\<close>, \<open>getDisplayText()\<close>, the name and path of the file of its view (if
  it is a \<open>TFile\<close>), and \<open>getRoot()\<close> (\<open>None\<close>: the call throws).
\<close>

record WorkspaceLeaf =
  leafId :: nat
  pinned :: bool
  viewType :: string
  displayText :: string
  viewFile :: "(string \<times> string) option"
  leafRoot :: "nat option"

text \<open>
  The workspace as one synchronous stretch of code sees it: the leaves that
  \<open>iterateRootLeaves\<close> enumerates, in order, \<open>getMostRecentLeaf()\<close> and \<open>rootSplit\<close>.
\<close>

record workspace =
  rootLeaves :: "WorkspaceLeaf list"
  mostRecentLeaf :: "WorkspaceLeaf option"
  rootSplit :: "nat option"

definition isRootLeaf :: "workspace \<Rightarrow> WorkspaceLeaf \<Rightarrow> bool" where
  "isRootLeaf W leaf =
     (case rootSplit W of
        None \<Rightarrow> False
      | Some rs \<Rightarrow> (case leafRoot leaf of None \<Rightarrow> False | Some r \<Rightarrow> r = rs))"

definition getActiveRootLeaf :: "workspace \<Rightarrow> WorkspaceLeaf option" where
  "getActiveRootLeaf W =
     (case mostRecentLeaf W of
        None \<Rightarrow> None
      | Some leaf \<Rightarrow> if isRootLeaf W leaf then Some leaf else None)"

definition getLeafName :: "WorkspaceLeaf \<Rightarrow> string" where
  "getLeafName leaf =
     (let name = (case viewFile leaf of None \<Rightarrow> [] | Some (n, p) \<Rightarrow> n) in
      if name \<noteq> [] then name
      else if displayText leaf \<noteq> [] then displayText leaf
      else if viewType leaf \<noteq> [] then viewType leaf
      else ''unknown'')"

definition initializeLeafTracking :: "'w host \<Rightarrow> workspace \<Rightarrow> 'w plugin \<Rightarrow> 'w plugin" where
  "initializeLeafTracking H W st =
     (let now = dateNow H (world st) in
      st\<lparr>leafActivityMap :=
           foldl (\<lambda>m leaf. if m (leafId leaf) \<noteq> None then m else m(leafId leaf \<mapsto> now))
             (leafActivityMap st) (rootLeaves W)\<rparr>)"

text \<open>The two handlers that \<open>registerActiveLeafChangeListener\<close> registers, and itself.\<close>

definition onActiveLeafChange ::
  "'w host \<Rightarrow> workspace \<Rightarrow> WorkspaceLeaf option \<Rightarrow> 'w plugin \<Rightarrow> 'w plugin" where
  "onActiveLeafChange H W l st =
     (case l of
        None \<Rightarrow> st
      | Some leaf \<Rightarrow>
          if isRootLeaf W leaf
          then st\<lparr>leafActivityMap := (leafActivityMap st)(leafId leaf \<mapsto> dateNow H (world st))\<rparr>
          else st)"

definition onFileOpen :: "'w host \<Rightarrow> workspace \<Rightarrow> bool \<Rightarrow> 'w plugin \<Rightarrow> 'w plugin" where
  "onFileOpen H W file st =
     (if file then
        (case getActiveRootLeaf W of
           None \<Rightarrow> st
         | Some leaf \<Rightarrow>
             st\<lparr>leafActivityMap := (leafActivityMap st)(leafId leaf \<mapsto> dateNow H (world st))\<rparr>)
      else st)"

definition registerActiveLeafChangeListener :: "'w plugin \<Rightarrow> 'w plugin" where
  "registerActiveLeafChangeListener st = st\<lparr>listeners := listeners st + 2\<rparr>"

definition startPeriodicCheck :: "'w plugin \<Rightarrow> 'w plugin" where
  "startPeriodicCheck st =
     (if \<not> enabled (settings st) then st
      else
        let checkIntervalMs = checkIntervalSeconds (settings st) * 1000;
            inactiveTimeoutMs = inactiveTimeoutMinutes (settings st) * 60 * 1000;
            intervalId = nextTimerId st
        in st\<lparr>timers := timers st
                    @ [(intervalId, \<lparr>periodMs = checkIntervalMs, capturedTimeoutMs = inactiveTimeoutMs\<rparr>)],
              nextTimerId := intervalId + 1,
              checkInterval := Some intervalId\<rparr>)"

definition stop :: "'w plugin \<Rightarrow> 'w plugin" where
  "stop st =
     (case checkInterval st of
        None \<Rightarrow> st
      | Some i \<Rightarrow> st\<lparr>timers := filter (\<lambda>(j, t). j \<noteq> i) (timers st), checkInterval := None\<rparr>)"

definition start :: "'w host \<Rightarrow> workspace \<Rightarrow> 'w plugin \<Rightarrow> 'w plugin" where
  "start H W st =
     startPeriodicCheck (registerActiveLeafChangeListener (initializeLeafTracking H W st))"

definition updateSettings :: "'w host \<Rightarrow> workspace \<Rightarrow> 'w plugin \<Rightarrow> 'w plugin" where
  "updateSettings H W st = start H W (stop st)"

subsection \<open>The sweep\<close>

text \<open>
  The callback of \<open>iterateRootLeaves\<close> in \<open>checkAndCloseInactiveTabsWithResult\<close>, on
  the activity map and \<open>leavesToClose\<close>. \<open>!lastActivity\<close> holds of \<open>undefined\<close> and
  of \<open>0\<close>.
\<close>

definition classifyLeaf ::
  "int \<Rightarrow> WorkspaceLeaf option \<Rightarrow> int
     \<Rightarrow> (nat \<Rightarrow> int option) \<times> (WorkspaceLeaf \<times> int \<times> string) list \<Rightarrow> WorkspaceLeaf
     \<Rightarrow> (nat \<Rightarrow> int option) \<times> (WorkspaceLeaf \<times> int \<times> string) list" where
  "classifyLeaf now activeLeaf inactiveTimeoutMs acc leaf =
     (case acc of (act, leavesToClose) \<Rightarrow>
        if pinned leaf then (act, leavesToClose)
        else if map_option leafId activeLeaf = Some (leafId leaf) then (act, leavesToClose)
        else
          (case act (leafId leaf) of
             None \<Rightarrow> (act(leafId leaf \<mapsto> now), leavesToClose)
           | Some lastActivity \<Rightarrow>
               if lastActivity = 0 then (act(leafId leaf \<mapsto> now), leavesToClose)
               else
                 let inactiveTime = now - lastActivity in
                 if inactiveTime \<ge> inactiveTimeoutMs
                 then (act, leavesToClose @ [(leaf, inactiveTime, getLeafName leaf)])
                 else (act, leavesToClose)))"

definition classifyLeaves ::
  "int \<Rightarrow> workspace \<Rightarrow> int \<Rightarrow> (nat \<Rightarrow> int option)
     \<Rightarrow> (nat \<Rightarrow> int option) \<times> (WorkspaceLeaf \<times> int \<times> string) list" where
  "classifyLeaves now W inactiveTimeoutMs act =
     foldl (classifyLeaf now (getActiveRootLeaf W) inactiveTimeoutMs) (act, []) (rootLeaves W)"

definition entryFor :: "'w host \<Rightarrow> 'w plugin \<Rightarrow> WorkspaceLeaf \<times> int \<times> string \<Rightarrow> ClosedTabEntry" where
  "entryFor H st x =
     (case x of (leaf, inactiveTime, name) \<Rightarrow>
        \<lparr>timestamp = dateNow H (world st), fileName = name,
         inactiveTimeMinutes = of_int inactiveTime / 60000,
         filePath = map_option snd (viewFile leaf)\<rparr>)"

text \<open>
  The loop over \<open>leavesToClose\<close>. Nothing in it catches: a rejected \<open>addEntry\<close> or a
  throwing \<open>leaf.detach()\<close> ends the sweep with that exception.
\<close>

fun closeLoop ::
  "'w host \<Rightarrow> runtime \<Rightarrow> (WorkspaceLeaf \<times> int \<times> string) list \<Rightarrow> 'w plugin \<Rightarrow> (string \<times> int) list
     \<Rightarrow> (thrown + (string \<times> int) list) \<times> 'w plugin" where
  "closeLoop H R [] st closedTabs = (Inr closedTabs, st)"
| "closeLoop H R (x # rest) st closedTabs =
     (case addEntry H R (entryFor H st x) st of
        (Some e, st1) \<Rightarrow> (Inl e, st1)
      | (None, st1) \<Rightarrow>
          let closedTabs1 = closedTabs @ [(snd (snd x), fst (snd x) div 60000)];
              st2 = st1\<lparr>detachLog := detachLog st1 @ [leafId (fst x)]\<rparr>
          in (case leaf_detach H (leafId (fst x)) (world st2) of
                (Some e, w) \<Rightarrow> (Inl e, st2\<lparr>world := w\<rparr>)
              | (None, w) \<Rightarrow> closeLoop H R rest (st2\<lparr>world := w\<rparr>) closedTabs1))"

definition checkAndCloseInactiveTabsWithResult ::
  "'w host \<Rightarrow> runtime \<Rightarrow> workspace \<Rightarrow> int \<Rightarrow> 'w plugin
     \<Rightarrow> (thrown + (string \<times> int) list) \<times> 'w plugin" where
  "checkAndCloseInactiveTabsWithResult H R W inactiveTimeoutMs st =
     (if \<not> enabled (settings st) then (Inr [], st)
      else
        let now = dateNow H (world st) in
        (case classifyLeaves now W inactiveTimeoutMs (leafActivityMap st) of
           (act, leavesToClose) \<Rightarrow>
             closeLoop H R leavesToClose (st\<lparr>leafActivityMap := act\<rparr>) []))"

text \<open>The evictable set of a sweep: \<open>leavesToClose\<close> as the enumeration leaves it.\<close>

definition leavesToClose ::
  "'w host \<Rightarrow> workspace \<Rightarrow> int \<Rightarrow> 'w plugin \<Rightarrow> (WorkspaceLeaf \<times> int \<times> string) list" where
  "leavesToClose H W inactiveTimeoutMs st =
     (if \<not> enabled (settings st) then []
      else snd (classifyLeaves (dateNow H (world st)) W inactiveTimeoutMs (leafActivityMap st)))"

text \<open>
  A tick of a running interval: the callback sweeps with the timeout its closure
  captured, and \<open>.catch\<close> logs a rejection.
\<close>

definition timerTick :: "'w host \<Rightarrow> runtime \<Rightarrow> workspace \<Rightarrow> timer \<Rightarrow> 'w plugin \<Rightarrow> 'w plugin" where
  "timerTick H R W t st = snd (checkAndCloseInactiveTabsWithResult H R W (capturedTimeoutMs t) st)"

definition manualCheck ::
  "'w host \<Rightarrow> runtime \<Rightarrow> workspace \<Rightarrow> 'w plugin \<Rightarrow> (thrown + (string \<times> int) list) \<times> 'w plugin" where
  "manualCheck H R W st =
     (if \<not> enabled (settings st) then (Inr [], st)
      else checkAndCloseInactiveTabsWithResult H R W
             (inactiveTimeoutMinutes (settings st) * 60 * 1000) st)"

subsection \<open>An invariant of the activity map\<close>

text \<open>
  Every record is written from \<open>Date.now()\<close>. As long as the clock does not read \<open>0\<close>
  (the first millisecond of 1970), no record is \<open>0\<close>.
\<close>

definition records_nonzero :: "'w plugin \<Rightarrow> bool" where
  "records_nonzero st =
     (\<forall>k lastActivity. leafActivityMap st k = Some lastActivity \<longrightarrow> lastActivity \<noteq> 0)"

section \<open>The settings tab (settingsTab.ts) and \<open>saveSettings\<close> (main.ts)\<close>

text \<open>
  \<open>saveSettings\<close> is \<open>saveData(this.settings)\<close>: it writes the settings and, with them,
  the \<open>closedTabsHistory\<close> key that the settings object has carried since it was loaded.
\<close>

definition saveSettings :: "'w host \<Rightarrow> 'w plugin \<Rightarrow> thrown option \<times> 'w plugin" where
  "saveSettings H st =
     (case saveData H \<lparr>settingsKeys = Some (settings st),
                         closedTabsHistory = settingsHistoryKey st\<rparr> (world st) of
        (r, w) \<Rightarrow> (r, st\<lparr>world := w\<rparr>))"

text \<open>
  The \<open>onChange\<close> handlers of the three scheduling settings. A text field's handler
  gets \<open>Number.parseInt(value, 10)\<close> (\<open>None\<close>: \<open>NaN\<close>).
\<close>

definition onChange_enabled ::
  "'w host \<Rightarrow> workspace \<Rightarrow> bool \<Rightarrow> 'w plugin \<Rightarrow> thrown option \<times> 'w plugin" where
  "onChange_enabled H W v st =
     (case saveSettings H (st\<lparr>settings := (settings st)\<lparr>enabled := v\<rparr>\<rparr>) of
        (Some e, st1) \<Rightarrow> (Some e, st1)
      | (None, st1) \<Rightarrow> (None, updateSettings H W st1))"

definition onChange_inactiveTimeoutMinutes ::
  "'w host \<Rightarrow> workspace \<Rightarrow> int option \<Rightarrow> 'w plugin \<Rightarrow> thrown option \<times> 'w plugin" where
  "onChange_inactiveTimeoutMinutes H W numValue st =
     (case numValue of
        None \<Rightarrow> (None, st)
      | Some n \<Rightarrow>
          if n > 0
          then saveSettings H (st\<lparr>settings := (settings st)\<lparr>inactiveTimeoutMinutes := n\<rparr>\<rparr>)
          else (None, st))"

definition onChange_checkIntervalSeconds ::
  "'w host \<Rightarrow> workspace \<Rightarrow> int option \<Rightarrow> 'w plugin \<Rightarrow> thrown option \<times> 'w plugin" where
  "onChange_checkIntervalSeconds H W numValue st =
     (case numValue of
        None \<Rightarrow> (None, st)
      | Some n \<Rightarrow>
          if n > 0
          then (case saveSettings H (st\<lparr>settings := (settings st)\<lparr>checkIntervalSeconds := n\<rparr>\<rparr>) of
                  (Some e, st1) \<Rightarrow> (Some e, st1)
                | (None, st1) \<Rightarrow> (None, updateSettings H W st1))
          else (None, st))"


section \<open>A concrete host and workspace\<close>

text \<open>
  An executable host for the examples: a clock, a vault of files and folders, the stored
  plugin data and the leaves detached so far. \<open>leaf.detach()\<close> throws on the leaves in
  \<open>bad\<close>; with \<open>racing\<close>, another writer creates the file just before \<open>vault.create\<close>
  does, which then throws.
\<close>

record test_world =
  clock :: int
  files :: "(string \<times> string) list"
  folders :: "string list"
  stored :: "plugin_data option"
  gone :: "nat list"

definition test_host :: "nat list \<Rightarrow> bool \<Rightarrow> test_world host" where
  "test_host bad racing =
     \<lparr>dateNow = clock,
      loadData = (\<lambda>w. (Inr (stored w), w)),
      saveData = (\<lambda>d w. (None, w\<lparr>stored := Some d\<rparr>)),
      getAbstractFileByPath =
        (\<lambda>p w. if map_of (files w) p \<noteq> None then Some TFile
                else if p \<in> set (folders w) then Some TFolder else None),
      vault_append =
        (\<lambda>p line w. (None, w\<lparr>files := map (\<lambda>(q, c). if q = p then (q, c @ line) else (q, c)) (files w)\<rparr>)),
      vault_createFolder =
        (\<lambda>p w. if p \<in> set (folders w) then (Some (ErrorObj ''Folder already exists.''), w)
                else (None, w\<lparr>folders := folders w @ [p]\<rparr>)),
      vault_create =
        (\<lambda>p c w. if racing then (Some (ErrorObj ''File already exists.''), w\<lparr>files := files w @ [(p, ''other'')]\<rparr>)
                  else if map_of (files w) p \<noteq> None then (Some (ErrorObj ''File already exists.''), w)
                  else (None, w\<lparr>files := files w @ [(p, c)]\<rparr>)),
      leaf_detach =
        (\<lambda>i w. if i \<in> set bad then (Some (ErrorObj ''detach failed''), w)
                else (None, w\<lparr>gone := gone w @ [i]\<rparr>))\<rparr>"

definition test_runtime :: runtime where
  "test_runtime =
     \<lparr>normalizePath = (\<lambda>p. p),
      toLocaleString = (\<lambda>t. ''1/1/1970, 12:01:02 AM''),
      toLocaleDateString = (\<lambda>t. ''1/1/1970''),
      toLocaleTimeString = (\<lambda>t. ''12:01:02 AM''),
      dateParse = (\<lambda>d. 0),
      toFixed1 = (\<lambda>q. ''1.0'')\<rparr>"

definition mkLeaf :: "nat \<Rightarrow> bool \<Rightarrow> string \<Rightarrow> WorkspaceLeaf" where
  "mkLeaf i p name =
     \<lparr>leafId = i, pinned = p, viewType = ''markdown'', displayText = name,
      viewFile = Some (name, ''notes/'' @ name), leafRoot = Some 0\<rparr>"

text \<open>
  Four tabs of the main area: \<open>a.md\<close> and \<open>d.md\<close> are plain, \<open>b.md\<close> is pinned,
  \<open>c.md\<close> has the focus.
\<close>

definition test_workspace :: workspace where
  "test_workspace =
     \<lparr>rootLeaves = [mkLeaf 1 False ''a.md'', mkLeaf 2 True ''b.md'', mkLeaf 3 False ''c.md'',
                    mkLeaf 4 False ''d.md''],
      mostRecentLeaf = Some (mkLeaf 3 False ''c.md''),
      rootSplit = Some 0\<rparr>"

definition test_world0 :: test_world where
  "test_world0 = \<lparr>clock = 62000, files = [], folders = [], stored = None, gone = []\<rparr>"

text \<open>
  A manager with a one-minute timeout and room for two history entries, at instant 62000:
  tabs 1 to 3 were last active at instant 1000, \<open>act4\<close> is the record of tab 4.
\<close>

definition test_plugin :: "int option \<Rightarrow> test_world plugin" where
  "test_plugin act4 =
     \<lparr>settings = DEFAULT_SETTINGS\<lparr>inactiveTimeoutMinutes := 1, maxHistoryEntries := 2\<rparr>,
      settingsHistoryKey = None,
      history = [],
      leafActivityMap = (\<lambda>k. if k = 1 \<or> k = 2 \<or> k = 3 then Some 1000 else if k = 4 then act4 else None),
      checkInterval = None, timers = [], nextTimerId = 0, listeners = 0,
      world = test_world0, detachLog = []\<rparr>"

definition mkEntry :: "string \<Rightarrow> ClosedTabEntry" where
  "mkEntry name = \<lparr>timestamp = 62000, fileName = name, inactiveTimeMinutes = 1, filePath = None\<rparr>"

text \<open>\<open>addEntry\<close> called for each entry of a list in turn, whatever the calls return.\<close>

fun addEntries :: "'w host \<Rightarrow> runtime \<Rightarrow> ClosedTabEntry list \<Rightarrow> 'w plugin \<Rightarrow> 'w plugin" where
  "addEntries H R [] st = st"
| "addEntries H R (e # es) st = addEntries H R es (snd (addEntry H R e st))"


text \<open>
  The manager after a sweep at instant 62000 in which tab 4 had no record, met again just
  under a minute later.
\<close>

definition test_later :: "test_world plugin" where
  "test_later =
     (let st = snd (checkAndCloseInactiveTabsWithResult (test_host [] False) test_runtime
                      test_workspace 60000 (test_plugin None))
      in st\<lparr>world := (world st)\<lparr>clock := 121999\<rparr>\<rparr>)"

text \<open>The same manager with history logging off (and the file mirror on).\<close>

definition test_quiet :: "test_world plugin" where
  "test_quiet = (test_plugin None)\<lparr>settings := (settings (test_plugin None))\<lparr>logHistory := False, logToFile := True\<rparr>\<rparr>"

text \<open>The same manager with the file mirror on, and the line it renders for entry E1.\<close>

definition test_mirroring :: "test_world plugin" where
  "test_mirroring = (test_plugin None)\<lparr>settings := (settings (test_plugin None))\<lparr>logToFile := True\<rparr>\<rparr>"

definition test_line :: string where
  "test_line = renderLine test_runtime (toLocaleString test_runtime 62000) (mkEntry ''E1'')"

text \<open>The same manager with two stored entries of one day.\<close>

definition test_two :: "test_world plugin" where
  "test_two = (test_plugin None)\<lparr>history := [mkEntry ''E1'', mkEntry ''E2'']\<rparr>"

text \<open>
  A manager started with the default settings (a timeout of 1440 minutes), and the same
  after the settings tab changed the timeout to one minute.
\<close>

definition test_running :: "test_world plugin" where
  "test_running =
     start (test_host [] False) test_workspace ((test_plugin None)\<lparr>settings := DEFAULT_SETTINGS\<rparr>)"

definition test_retimed :: "test_world plugin" where
  "test_retimed =
     snd (onChange_inactiveTimeoutMinutes (test_host [] False) test_workspace (Some 1) test_running)"

section \<open>The classification of the leaves\<close>


lemma classifyLeaf_mem:
  "x \<in> set (snd (classifyLeaf now a t (act, tc) l)) \<Longrightarrow>
     x \<in> set tc \<or>
     (fst x = l \<and> \<not> pinned l \<and> map_option leafId a \<noteq> Some (leafId l)
        \<and> t \<le> fst (snd x) \<and> snd (snd x) = getLeafName l)"
  by (auto simp: classifyLeaf_def Let_def split: if_splits option.splits)

lemma classifyLeaf_mono: "set tc \<subseteq> set (snd (classifyLeaf now a t (act, tc) l))"
  by (auto simp: classifyLeaf_def Let_def split: if_splits option.splits)

lemma classifyLeaf_keeps:
  "act k = Some la \<Longrightarrow> la \<noteq> 0 \<or> la = now \<Longrightarrow> fst (classifyLeaf now a t (act, tc) l) k = Some la"
  by (auto simp: classifyLeaf_def Let_def split: if_splits option.splits)

lemma classifyLeaf_other:
  "leafId l \<noteq> k \<Longrightarrow> fst (classifyLeaf now a t (act, tc) l) k = act k"
  by (auto simp: classifyLeaf_def Let_def split: if_splits option.splits)

lemma classifyLeaf_recorded:
  "act k = Some la \<Longrightarrow> la \<noteq> 0 \<Longrightarrow> x \<in> set (snd (classifyLeaf now a t (act, tc) l)) \<Longrightarrow>
     leafId (fst x) = k \<Longrightarrow> x \<in> set tc \<or> (t \<le> now - la \<and> fst (snd x) = now - la)"
  by (auto simp: classifyLeaf_def Let_def split: if_splits option.splits)

lemma classifyLeaf_untracked:
  "act (leafId l) = None \<or> act (leafId l) = Some 0 \<Longrightarrow>
     snd (classifyLeaf now a t (act, tc) l) = tc"
  by (auto simp: classifyLeaf_def Let_def split: if_splits option.splits)

lemma classifyLeaf_seeds:
  "act (leafId l) = None \<or> act (leafId l) = Some 0 \<Longrightarrow> \<not> pinned l \<Longrightarrow>
     map_option leafId a \<noteq> Some (leafId l) \<Longrightarrow>
     fst (classifyLeaf now a t (act, tc) l) (leafId l) = Some now"
  by (auto simp: classifyLeaf_def Let_def split: if_splits option.splits)

lemma classifyLeaf_evicts:
  "act (leafId l) = Some la \<Longrightarrow> la \<noteq> 0 \<Longrightarrow> \<not> pinned l \<Longrightarrow>
     map_option leafId a \<noteq> Some (leafId l) \<Longrightarrow> t \<le> now - la \<Longrightarrow>
     (l, now - la, getLeafName l) \<in> set (snd (classifyLeaf now a t (act, tc) l))"
  by (auto simp: classifyLeaf_def Let_def split: if_splits option.splits)

lemma foldl_classify_mem:
  "x \<in> set (snd (foldl (classifyLeaf now a t) (act, tc) ls)) \<Longrightarrow>
     x \<in> set tc \<or>
     (fst x \<in> set ls \<and> \<not> pinned (fst x) \<and> map_option leafId a \<noteq> Some (leafId (fst x))
        \<and> t \<le> fst (snd x) \<and> snd (snd x) = getLeafName (fst x))"
proof (induction ls arbitrary: act tc)
  case Nil
  then show ?case by simp
next
  case (Cons l ls)
  obtain act' tc' where step: "classifyLeaf now a t (act, tc) l = (act', tc')"
    by (cases "classifyLeaf now a t (act, tc) l")
  from Cons.prems step have "x \<in> set (snd (foldl (classifyLeaf now a t) (act', tc') ls))"
    by simp
  from Cons.IH [OF this] show ?case
  proof
    assume "x \<in> set tc'"
    then have "x \<in> set (snd (classifyLeaf now a t (act, tc) l))" using step by simp
    from classifyLeaf_mem [OF this] show ?thesis by auto
  next
    assume "fst x \<in> set ls \<and> \<not> pinned (fst x) \<and> map_option leafId a \<noteq> Some (leafId (fst x))
        \<and> t \<le> fst (snd x) \<and> snd (snd x) = getLeafName (fst x)"
    then show ?thesis by auto
  qed
qed

lemma foldl_classify_mono:
  "set tc \<subseteq> set (snd (foldl (classifyLeaf now a t) (act, tc) ls))"
proof (induction ls arbitrary: act tc)
  case Nil
  then show ?case by simp
next
  case (Cons l ls)
  obtain act' tc' where step: "classifyLeaf now a t (act, tc) l = (act', tc')"
    by (cases "classifyLeaf now a t (act, tc) l")
  have "set tc \<subseteq> set tc'" using classifyLeaf_mono [of tc now a t act l] step by simp
  also have "set tc' \<subseteq> set (snd (foldl (classifyLeaf now a t) (act', tc') ls))" by (rule Cons.IH)
  finally show ?case using step by simp
qed

lemma foldl_classify_keeps:
  "act k = Some la \<Longrightarrow> la \<noteq> 0 \<or> la = now \<Longrightarrow>
     fst (foldl (classifyLeaf now a t) (act, tc) ls) k = Some la"
proof (induction ls arbitrary: act tc)
  case Nil
  then show ?case by simp
next
  case (Cons l ls)
  obtain act' tc' where step: "classifyLeaf now a t (act, tc) l = (act', tc')"
    by (cases "classifyLeaf now a t (act, tc) l")
  have "act' k = Some la"
    using classifyLeaf_keeps [of act k la now a t tc l] Cons.prems step by simp
  then have "fst (foldl (classifyLeaf now a t) (act', tc') ls) k = Some la"
    using Cons.IH [of act' tc'] Cons.prems(2) by simp
  then show ?case using step by simp
qed

lemma foldl_classify_recorded:
  "act k = Some la \<Longrightarrow> la \<noteq> 0 \<Longrightarrow> x \<in> set (snd (foldl (classifyLeaf now a t) (act, tc) ls)) \<Longrightarrow>
     leafId (fst x) = k \<Longrightarrow> x \<in> set tc \<or> (t \<le> now - la \<and> fst (snd x) = now - la)"
proof (induction ls arbitrary: act tc)
  case Nil
  then show ?case by simp
next
  case (Cons l ls)
  obtain act' tc' where step: "classifyLeaf now a t (act, tc) l = (act', tc')"
    by (cases "classifyLeaf now a t (act, tc) l")
  have keep: "act' k = Some la"
    using classifyLeaf_keeps [of act k la now a t tc l] Cons.prems(1,2) step by simp
  from Cons.prems(3) step have "x \<in> set (snd (foldl (classifyLeaf now a t) (act', tc') ls))"
    by simp
  then have "x \<in> set tc' \<or> (t \<le> now - la \<and> fst (snd x) = now - la)"
    using Cons.IH [of act' tc'] keep Cons.prems(2,4) by simp
  then show ?case
  proof
    assume "x \<in> set tc'"
    then have "x \<in> set (snd (classifyLeaf now a t (act, tc) l))" using step by simp
    then show ?thesis
      using classifyLeaf_recorded [of act k la x now a t tc l] Cons.prems(1,2,4) by simp
  next
    assume "t \<le> now - la \<and> fst (snd x) = now - la"
    then show ?thesis by simp
  qed
qed

lemma foldl_classify_untracked:
  "act k = None \<or> act k = Some 0 \<Longrightarrow> distinct (map leafId ls) \<Longrightarrow>
     x \<in> set (snd (foldl (classifyLeaf now a t) (act, tc) ls)) \<Longrightarrow> leafId (fst x) = k \<Longrightarrow>
     x \<in> set tc"
proof (induction ls arbitrary: act tc)
  case Nil
  then show ?case by simp
next
  case (Cons l ls)
  obtain act' tc' where step: "classifyLeaf now a t (act, tc) l = (act', tc')"
    by (cases "classifyLeaf now a t (act, tc) l")
  from Cons.prems(3) step have mem: "x \<in> set (snd (foldl (classifyLeaf now a t) (act', tc') ls))"
    by simp
  show ?case
  proof (cases "leafId l = k")
    case True
    then have tc': "tc' = tc" using classifyLeaf_untracked [of act l now a t tc] Cons.prems(1) step by simp
    have "leafId (fst x) \<notin> leafId ` set ls" using True Cons.prems(2,4) by simp
    then have "fst x \<notin> set ls" by blast
    with foldl_classify_mem [OF mem] tc' show ?thesis by blast
  next
    case False
    then have "act' k = act k" using classifyLeaf_other [of l k now a t act tc] step by simp
    then have "act' k = None \<or> act' k = Some 0" using Cons.prems(1) by simp
    moreover have "distinct (map leafId ls)" using Cons.prems(2) by simp
    ultimately have "x \<in> set tc'" using Cons.IH mem Cons.prems(4) by blast
    then have "x \<in> set (snd (classifyLeaf now a t (act, tc) l))" using step by simp
    from classifyLeaf_mem [OF this] False Cons.prems(4) show ?thesis by auto
  qed
qed

lemma foldl_classify_evicts:
  "l \<in> set ls \<Longrightarrow> act (leafId l) = Some la \<Longrightarrow> la \<noteq> 0 \<Longrightarrow> \<not> pinned l \<Longrightarrow>
     map_option leafId a \<noteq> Some (leafId l) \<Longrightarrow> t \<le> now - la \<Longrightarrow>
     (l, now - la, getLeafName l) \<in> set (snd (foldl (classifyLeaf now a t) (act, tc) ls))"
proof (induction ls arbitrary: act tc)
  case Nil
  then show ?case by simp
next
  case (Cons m ls)
  obtain act' tc' where step: "classifyLeaf now a t (act, tc) m = (act', tc')"
    by (cases "classifyLeaf now a t (act, tc) m")
  show ?case
  proof (cases "m = l")
    case True
    have "(l, now - la, getLeafName l) \<in> set tc'"
      using classifyLeaf_evicts [of act l la a t now tc] Cons.prems(2-6) step True by simp
    then show ?thesis using foldl_classify_mono [of tc' now a t act' ls] step by auto
  next
    case False
    then have "l \<in> set ls" using Cons.prems(1) by simp
    moreover have "act' (leafId l) = Some la"
      using classifyLeaf_keeps [of act "leafId l" la now a t tc m] Cons.prems(2,3) step by simp
    ultimately show ?thesis using Cons.IH Cons.prems(3-6) step by simp
  qed
qed

lemma foldl_classify_seeds:
  "l \<in> set ls \<Longrightarrow> act (leafId l) = None \<or> act (leafId l) = Some 0 \<or> act (leafId l) = Some now \<Longrightarrow>
     \<not> pinned l \<Longrightarrow> map_option leafId a \<noteq> Some (leafId l) \<Longrightarrow>
     fst (foldl (classifyLeaf now a t) (act, tc) ls) (leafId l) = Some now"
proof (induction ls arbitrary: act tc)
  case Nil
  then show ?case by simp
next
  case (Cons m ls)
  obtain act' tc' where step: "classifyLeaf now a t (act, tc) m = (act', tc')"
    by (cases "classifyLeaf now a t (act, tc) m")
  show ?case
  proof (cases "m = l")
    case True
    have "act' (leafId l) = Some now"
    proof (cases "act (leafId l) = Some now")
      case True
      then show ?thesis using classifyLeaf_keeps [of act "leafId l" now now a t tc m] step by simp
    next
      case False
      then have "act (leafId l) = None \<or> act (leafId l) = Some 0" using Cons.prems(2) by blast
      then show ?thesis
        using classifyLeaf_seeds [of act l a now t tc] Cons.prems(3,4) step \<open>m = l\<close> by simp
    qed
    then show ?thesis
      using foldl_classify_keeps [of act' "leafId l" now now a t tc' ls] step by simp
  next
    case False
    then have in_ls: "l \<in> set ls" using Cons.prems(1) by simp
    have "act' (leafId l) = None \<or> act' (leafId l) = Some 0 \<or> act' (leafId l) = Some now"
    proof (cases "leafId m = leafId l")
      case True
      then show ?thesis using step Cons.prems(2)
        by (auto simp: classifyLeaf_def Let_def split: if_splits option.splits)
    next
      case False
      then show ?thesis using classifyLeaf_other [of m "leafId l" now a t act tc] step Cons.prems(2) by simp
    qed
    then show ?thesis using Cons.IH [of act' tc'] in_ls Cons.prems(3,4) step by simp
  qed
qed


section \<open>The closing loop\<close>

lemma addEntry_frame:
  "leafActivityMap (snd (addEntry H R e st)) = leafActivityMap st \<and>
   detachLog (snd (addEntry H R e st)) = detachLog st \<and>
   settings (snd (addEntry H R e st)) = settings st \<and>
   timers (snd (addEntry H R e st)) = timers st \<and>
   checkInterval (snd (addEntry H R e st)) = checkInterval st"
  by (auto simp: addEntry_def saveHistory_def writeToFile_def Let_def
      split: prod.splits sum.splits option.splits)

lemma closeLoop_detachLog:
  "set (detachLog (snd (closeLoop H R xs st c))) \<subseteq> set (detachLog st) \<union> (\<lambda>x. leafId (fst x)) ` set xs"
proof (induction xs arbitrary: st c)
  case Nil
  then show ?case by simp
next
  case (Cons x xs)
  obtain r st1 where a: "addEntry H R (entryFor H st x) st = (r, st1)"
    by (cases "addEntry H R (entryFor H st x) st")
  have d1: "detachLog st1 = detachLog st" using addEntry_frame [of H R "entryFor H st x" st] a by simp
  show ?case
  proof (cases r)
    case (Some e)
    then show ?thesis using a d1 by auto
  next
    case None
    let ?st2 = "st1\<lparr>detachLog := detachLog st1 @ [leafId (fst x)]\<rparr>"
    obtain r2 w where dt: "leaf_detach H (leafId (fst x)) (world ?st2) = (r2, w)"
      by (cases "leaf_detach H (leafId (fst x)) (world ?st2)")
    show ?thesis
    proof (cases r2)
      case (Some e)
      then show ?thesis using a d1 None dt by (auto simp: Let_def)
    next
      case N2: None
      have "set (detachLog (snd (closeLoop H R xs (?st2\<lparr>world := w\<rparr>) (c @ [(snd (snd x), fst (snd x) div 60000)]))))
            \<subseteq> set (detachLog (?st2\<lparr>world := w\<rparr>)) \<union> (\<lambda>x. leafId (fst x)) ` set xs"
        by (rule Cons.IH)
      then show ?thesis using a d1 None dt N2 by (auto simp: Let_def)
    qed
  qed
qed

lemma closeLoop_leafActivityMap:
  "leafActivityMap (snd (closeLoop H R xs st c)) = leafActivityMap st"
proof (induction xs arbitrary: st c)
  case Nil
  then show ?case by simp
next
  case (Cons x xs)
  obtain r st1 where a: "addEntry H R (entryFor H st x) st = (r, st1)"
    by (cases "addEntry H R (entryFor H st x) st")
  have d1: "leafActivityMap st1 = leafActivityMap st"
    using addEntry_frame [of H R "entryFor H st x" st] a by simp
  show ?case using a d1 Cons.IH
    by (auto simp: Let_def split: option.splits prod.splits)
qed


section \<open>The sweep as a whole\<close>


lemma sweep_detachLog:
  "set (detachLog (snd (checkAndCloseInactiveTabsWithResult H R W t st)))
     \<subseteq> set (detachLog st) \<union> (\<lambda>x. leafId (fst x)) ` set (leavesToClose H W t st)"
proof (cases "enabled (settings st)")
  case False
  then show ?thesis by (simp add: checkAndCloseInactiveTabsWithResult_def)
next
  case True
  obtain act tc where c: "classifyLeaves (dateNow H (world st)) W t (leafActivityMap st) = (act, tc)"
    by (cases "classifyLeaves (dateNow H (world st)) W t (leafActivityMap st)")
  have "set (detachLog (snd (closeLoop H R tc (st\<lparr>leafActivityMap := act\<rparr>) [])))
          \<subseteq> set (detachLog (st\<lparr>leafActivityMap := act\<rparr>)) \<union> (\<lambda>x. leafId (fst x)) ` set tc"
    by (rule closeLoop_detachLog)
  then show ?thesis using True c
    by (simp add: checkAndCloseInactiveTabsWithResult_def leavesToClose_def Let_def)
qed

lemma sweep_leafActivityMap:
  "enabled (settings st) \<Longrightarrow>
   leafActivityMap (snd (checkAndCloseInactiveTabsWithResult H R W t st))
     = fst (classifyLeaves (dateNow H (world st)) W t (leafActivityMap st))"
  by (simp add: checkAndCloseInactiveTabsWithResult_def Let_def closeLoop_leafActivityMap
      split: prod.splits)


lemma sweep_unfold:
  "enabled (settings st) \<Longrightarrow>
     checkAndCloseInactiveTabsWithResult H R W t st
       = closeLoop H R (leavesToClose H W t st)
           (st\<lparr>leafActivityMap :=
                 fst (classifyLeaves (dateNow H (world st)) W t (leafActivityMap st))\<rparr>) []"
  by (simp add: checkAndCloseInactiveTabsWithResult_def leavesToClose_def Let_def split: prod.splits)

section \<open>The activity map\<close>

lemma foldl_init:
  "foldl (\<lambda>m leaf. if m (leafId leaf) \<noteq> None then m else m(leafId leaf \<mapsto> now)) m ls k
     = (case m k of
          Some la \<Rightarrow> Some la
        | None \<Rightarrow> if k \<in> leafId ` set ls then Some now else None)"
proof (induction ls arbitrary: m)
  case Nil
  then show ?case by (simp split: option.splits)
next
  case (Cons l ls)
  then show ?case by (auto split: option.splits)
qed

lemma initializeLeafTracking_map:
  "leafActivityMap (initializeLeafTracking H W st) k
     = (case leafActivityMap st k of
          Some lastActivity \<Rightarrow> Some lastActivity
        | None \<Rightarrow> if k \<in> leafId ` set (rootLeaves W) then Some (dateNow H (world st)) else None)"
  by (simp add: initializeLeafTracking_def Let_def foldl_init del: not_None_eq)

lemma classifyLeaf_nonzero:
  "now \<noteq> 0 \<Longrightarrow> \<forall>k la. act k = Some la \<longrightarrow> la \<noteq> 0 \<Longrightarrow>
     \<forall>k la. fst (classifyLeaf now a t (act, tc) l) k = Some la \<longrightarrow> la \<noteq> 0"
  by (auto simp: classifyLeaf_def Let_def split: if_splits option.splits)

lemma foldl_classify_nonzero:
  "now \<noteq> 0 \<Longrightarrow> \<forall>k la. act k = Some la \<longrightarrow> la \<noteq> 0 \<Longrightarrow>
     \<forall>k la. fst (foldl (classifyLeaf now a t) (act, tc) ls) k = Some la \<longrightarrow> la \<noteq> 0"
proof (induction ls arbitrary: act tc)
  case Nil
  then show ?case by simp
next
  case (Cons l ls)
  obtain act' tc' where step: "classifyLeaf now a t (act, tc) l = (act', tc')"
    by (cases "classifyLeaf now a t (act, tc) l")
  have "\<forall>k la. act' k = Some la \<longrightarrow> la \<noteq> 0"
    using classifyLeaf_nonzero [OF Cons.prems, of a t tc l] step by simp
  from Cons.IH [OF Cons.prems(1) this, of tc'] show ?case using step by simp
qed

lemma records_nonzero_init:
  "records_nonzero st \<Longrightarrow> dateNow H (world st) \<noteq> 0 \<Longrightarrow>
     records_nonzero (initializeLeafTracking H W st)"
  by (auto simp: records_nonzero_def initializeLeafTracking_map split: option.splits if_splits)

lemma records_nonzero_touch:
  "records_nonzero st \<Longrightarrow> dateNow H (world st) \<noteq> 0 \<Longrightarrow>
     records_nonzero (onActiveLeafChange H W l st) \<and> records_nonzero (onFileOpen H W file st)"
  by (auto simp: records_nonzero_def onActiveLeafChange_def onFileOpen_def split: option.splits)

lemma records_nonzero_start:
  "records_nonzero st \<Longrightarrow> dateNow H (world st) \<noteq> 0 \<Longrightarrow>
     records_nonzero (start H W st) \<and> records_nonzero (updateSettings H W st)"
proof -
  assume r: "records_nonzero st" and n: "dateNow H (world st) \<noteq> 0"
  have s: "records_nonzero (start H W st)" if "records_nonzero st" "dateNow H (world st) \<noteq> 0"
    for st :: "'a plugin"
    using records_nonzero_init [OF that, of W]
    by (simp add: records_nonzero_def start_def startPeriodicCheck_def
        registerActiveLeafChangeListener_def Let_def)
  have "records_nonzero (stop st)" "dateNow H (world (stop st)) \<noteq> 0"
    using r n by (simp_all add: records_nonzero_def stop_def split: option.splits)
  then have "records_nonzero (updateSettings H W st)"
    unfolding updateSettings_def by (rule s)
  with s [OF r n] show ?thesis by simp
qed

lemma records_nonzero_sweep:
  assumes "records_nonzero st" and "dateNow H (world st) \<noteq> 0"
  shows "records_nonzero (snd (checkAndCloseInactiveTabsWithResult H R W t st))"
proof (cases "enabled (settings st)")
  case False
  then show ?thesis using assms(1) by (simp add: checkAndCloseInactiveTabsWithResult_def)
next
  case True
  show ?thesis
    using foldl_classify_nonzero [OF assms(2), of "leafActivityMap st" "getActiveRootLeaf W" t "[]"
        "rootLeaves W"] assms(1)
    by (simp add: records_nonzero_def sweep_leafActivityMap [OF True] classifyLeaves_def)
qed

lemmas sweep_defs =
  checkAndCloseInactiveTabsWithResult_def leavesToClose_def classifyLeaves_def classifyLeaf_def
  getActiveRootLeaf_def isRootLeaf_def getLeafName_def entryFor_def Let_def

lemmas history_defs =
  addEntry_def saveHistory_def trimHistory_def js_slice_from_def writeToFile_def
  writeToFile_try_def mirrorPath_def ensureFolder_def isAlreadyExists_def

lemmas test_defs =
  test_host_def test_runtime_def test_workspace_def test_plugin_def test_world0_def
  mkLeaf_def mkEntry_def DEFAULT_SETTINGS_def


section \<open>Protected panes\<close>

text \<open>
  Claim C1. In every sweep, each entry of the evictable set \<open>leavesToClose\<close> is an
  enumerated leaf that is not pinned and is not the focused managed leaf
  (\<open>getActiveRootLeaf\<close>); \<open>leaf.detach()\<close> is called on leaves of the evictable set
  only; so a pinned leaf and the focused leaf are neither evictable nor closed, whatever
  their last activity is. (Leaves are told apart by identity, hence the enumeration
  without repetition in the last part.)
\<close>

theorem protected_never_evicted:
  "(\<forall>x \<in> set (leavesToClose H W t st).
      fst x \<in> set (rootLeaves W) \<and> \<not> pinned (fst x)
        \<and> map_option leafId (getActiveRootLeaf W) \<noteq> Some (leafId (fst x)))
   \<and> set (detachLog (snd (checkAndCloseInactiveTabsWithResult H R W t st)))
        \<subseteq> set (detachLog st) \<union> (\<lambda>x. leafId (fst x)) ` set (leavesToClose H W t st)
   \<and> (distinct (map leafId (rootLeaves W)) \<longrightarrow>
        (\<forall>leaf \<in> set (rootLeaves W).
           pinned leaf \<or> map_option leafId (getActiveRootLeaf W) = Some (leafId leaf) \<longrightarrow>
           leafId leaf \<notin> (\<lambda>x. leafId (fst x)) ` set (leavesToClose H W t st)))"
proof -
  have A: "fst x \<in> set (rootLeaves W) \<and> \<not> pinned (fst x)
        \<and> map_option leafId (getActiveRootLeaf W) \<noteq> Some (leafId (fst x))"
    if "x \<in> set (leavesToClose H W t st)" for x
  proof -
    from that have en: "enabled (settings st)"
      by (auto simp: leavesToClose_def split: if_splits)
    with that have "x \<in> set (snd (foldl (classifyLeaf (dateNow H (world st)) (getActiveRootLeaf W) t)
                       (leafActivityMap st, []) (rootLeaves W)))"
      by (simp add: leavesToClose_def classifyLeaves_def)
    from foldl_classify_mem [OF this] show ?thesis by simp
  qed
  have C: "leafId leaf \<notin> (\<lambda>x. leafId (fst x)) ` set (leavesToClose H W t st)"
    if d: "distinct (map leafId (rootLeaves W))" and l: "leaf \<in> set (rootLeaves W)"
      and p: "pinned leaf \<or> map_option leafId (getActiveRootLeaf W) = Some (leafId leaf)" for leaf
  proof
    assume "leafId leaf \<in> (\<lambda>x. leafId (fst x)) ` set (leavesToClose H W t st)"
    then obtain x where x: "x \<in> set (leavesToClose H W t st)" and i: "leafId (fst x) = leafId leaf"
      by auto
    from A [OF x] have fx: "fst x \<in> set (rootLeaves W)" "\<not> pinned (fst x)"
      "map_option leafId (getActiveRootLeaf W) \<noteq> Some (leafId (fst x))" by simp_all
    from d have "inj_on leafId (set (rootLeaves W))" by (simp add: distinct_map)
    with fx(1) l i have "fst x = leaf" by (auto dest: inj_onD)
    with fx p i show False by auto
  qed
  show ?thesis using A C sweep_detachLog [of H R W t st] by blast
qed

theorem protected_never_evicted_witness:
  "pinned (mkLeaf 2 True ''b.md'')
   \<and> map_option leafId (getActiveRootLeaf test_workspace) = Some 3
   \<and> leafActivityMap (test_plugin None) 2 = Some 1000
   \<and> leafActivityMap (test_plugin None) 3 = Some 1000
   \<and> leavesToClose (test_host [] False) test_workspace 60000 (test_plugin None)
        = [(mkLeaf 1 False ''a.md'', 61000, ''a.md'')]
   \<and> detachLog (snd (checkAndCloseInactiveTabsWithResult (test_host [] False) test_runtime
        test_workspace 60000 (test_plugin None))) = [1]"
proof -
  have e: "leavesToClose (test_host [] False) test_workspace 60000 (test_plugin None)
        = [(mkLeaf 1 False ''a.md'', 61000, ''a.md'')]"
    by (simp add: sweep_defs test_defs)
  have s: "detachLog (snd (checkAndCloseInactiveTabsWithResult (test_host [] False) test_runtime
        test_workspace 60000 (test_plugin None))) = [1]"
    by (simp add: sweep_defs history_defs test_defs)
  show ?thesis
    using protected_never_evicted [of "test_host [] False" test_workspace 60000 "test_plugin None" test_runtime] e s
    by (simp add: test_workspace_def mkLeaf_def getActiveRootLeaf_def isRootLeaf_def test_plugin_def)
qed

section \<open>The threshold\<close>

lemma closeLoop_returns:
  "fst (closeLoop H R xs st c) = Inr c' \<Longrightarrow>
     detachLog (snd (closeLoop H R xs st c)) = detachLog st @ map (\<lambda>x. leafId (fst x)) xs
     \<and> c' = c @ map (\<lambda>x. (snd (snd x), fst (snd x) div 60000)) xs"
proof (induction xs arbitrary: st c)
  case Nil
  then show ?case by simp
next
  case (Cons x xs)
  obtain r sb where a: "addEntry H R (entryFor H st x) st = (r, sb)"
    by (cases "addEntry H R (entryFor H st x) st")
  have d: "detachLog sb = detachLog st" using addEntry_frame [of H R "entryFor H st x" st] a by simp
  from Cons.prems a have r: "r = None" by (cases r) simp_all
  let ?sc = "sb\<lparr>detachLog := detachLog sb @ [leafId (fst x)]\<rparr>"
  obtain q w where dt: "leaf_detach H (leafId (fst x)) (world ?sc) = (q, w)"
    by (cases "leaf_detach H (leafId (fst x)) (world ?sc)")
  from Cons.prems a r dt have q: "q = None" by (cases q) (simp_all add: Let_def)
  have step: "closeLoop H R (x # xs) st c
      = closeLoop H R xs (?sc\<lparr>world := w\<rparr>) (c @ [(snd (snd x), fst (snd x) div 60000)])"
    using a r dt q by (simp add: Let_def)
  with Cons.prems have "fst (closeLoop H R xs (?sc\<lparr>world := w\<rparr>)
      (c @ [(snd (snd x), fst (snd x) div 60000)])) = Inr c'" by simp
  from Cons.IH [OF this] show ?case using step d by simp
qed

lemma sweep_returns:
  assumes "enabled (settings st)"
    and "fst (checkAndCloseInactiveTabsWithResult H R W t st) = Inr closedTabs"
  shows "detachLog (snd (checkAndCloseInactiveTabsWithResult H R W t st))
           = detachLog st @ map (\<lambda>x. leafId (fst x)) (leavesToClose H W t st)
       \<and> closedTabs = map (\<lambda>x. (snd (snd x), fst (snd x) div 60000)) (leavesToClose H W t st)"
  using closeLoop_returns [of H R "leavesToClose H W t st" _ "[]" closedTabs] assms
  by (simp add: sweep_unfold)

text \<open>
  What a sweep that runs with the timeout \<open>t\<close> does with a leaf of the enumeration that
  is neither pinned nor focused and has a record: it puts the leaf in the evictable set
  exactly when \<open>now - lastActivity \<ge> t\<close> (also at equality); below \<open>t\<close> it does not
  detach it; and a sweep that returns has detached the leaf, and reports it, exactly
  when \<open>now - lastActivity \<ge> t\<close>. A record is a \<open>Date.now()\<close> reading, so it is not
  \<open>0\<close> (\<open>records_nonzero\<close> is kept by every operation that writes the map, lemmas
  \<open>records_nonzero_init\<close> to \<open>records_nonzero_sweep\<close>); the sweep's test
  \<open>!lastActivity\<close> would read a record of \<open>0\<close> as no record. A manual check runs the
  sweep with the configured timeout.
\<close>

lemma threshold_boundary:
  assumes "enabled (settings st)"
    and "leaf \<in> set (rootLeaves W)"
    and "\<not> pinned leaf"
    and "map_option leafId (getActiveRootLeaf W) \<noteq> Some (leafId leaf)"
    and "leafActivityMap st (leafId leaf) = Some lastActivity"
    and "lastActivity \<noteq> 0"
  shows "(leafId leaf \<in> (\<lambda>x. leafId (fst x)) ` set (leavesToClose H W t st)
           \<longleftrightarrow> dateNow H (world st) - lastActivity \<ge> t)
       \<and> (dateNow H (world st) - lastActivity \<ge> t \<longrightarrow>
            (leaf, dateNow H (world st) - lastActivity, getLeafName leaf)
              \<in> set (leavesToClose H W t st))
       \<and> (dateNow H (world st) - lastActivity < t \<longrightarrow>
            leafId leaf \<notin> set (detachLog st) \<longrightarrow>
            leafId leaf \<notin> set (detachLog (snd (checkAndCloseInactiveTabsWithResult H R W t st))))
       \<and> (fst (checkAndCloseInactiveTabsWithResult H R W t st) = Inr closedTabs \<longrightarrow>
            (leafId leaf \<in> set (detachLog (snd (checkAndCloseInactiveTabsWithResult H R W t st)))
               \<longleftrightarrow> dateNow H (world st) - lastActivity \<ge> t \<or> leafId leaf \<in> set (detachLog st))
            \<and> (dateNow H (world st) - lastActivity \<ge> t \<longrightarrow>
                  (getLeafName leaf, (dateNow H (world st) - lastActivity) div 60000) \<in> set closedTabs))"
proof -
  let ?now = "dateNow H (world st)"
  let ?sweep = "checkAndCloseInactiveTabsWithResult H R W t st"
  let ?tc = "snd (foldl (classifyLeaf ?now (getActiveRootLeaf W) t) (leafActivityMap st, []) (rootLeaves W))"
  have ltc: "leavesToClose H W t st = ?tc"
    using assms(1) by (simp add: leavesToClose_def classifyLeaves_def)
  have fwd: "t \<le> ?now - lastActivity" if "x \<in> set ?tc" and "leafId (fst x) = leafId leaf" for x
    using foldl_classify_recorded [of "leafActivityMap st" "leafId leaf" lastActivity x ?now
        "getActiveRootLeaf W" t "[]" "rootLeaves W"] assms(5,6) that by simp
  have bwd: "(leaf, ?now - lastActivity, getLeafName leaf) \<in> set ?tc" if "t \<le> ?now - lastActivity"
    using foldl_classify_evicts [of leaf "rootLeaves W" "leafActivityMap st" lastActivity
        "getActiveRootLeaf W" t ?now "[]"] assms(2-6) that by simp
  have one: "leafId leaf \<in> (\<lambda>x. leafId (fst x)) ` set ?tc \<longleftrightarrow> t \<le> ?now - lastActivity"
  proof
    assume "leafId leaf \<in> (\<lambda>x. leafId (fst x)) ` set ?tc"
    then obtain x where "x \<in> set ?tc" "leafId (fst x) = leafId leaf" by auto
    then show "t \<le> ?now - lastActivity" by (rule fwd)
  next
    assume "t \<le> ?now - lastActivity"
    from bwd [OF this] show "leafId leaf \<in> (\<lambda>x. leafId (fst x)) ` set ?tc" by force
  qed
  have three: "leafId leaf \<notin> set (detachLog (snd ?sweep))"
    if "?now - lastActivity < t" and "leafId leaf \<notin> set (detachLog st)"
  proof -
    from that(1) one have "leafId leaf \<notin> (\<lambda>x. leafId (fst x)) ` set (leavesToClose H W t st)"
      using ltc by simp
    with that(2) sweep_detachLog [of H R W t st] show ?thesis by blast
  qed
  have four: "(leafId leaf \<in> set (detachLog (snd ?sweep))
               \<longleftrightarrow> ?now - lastActivity \<ge> t \<or> leafId leaf \<in> set (detachLog st))
            \<and> (?now - lastActivity \<ge> t \<longrightarrow>
                  (getLeafName leaf, (?now - lastActivity) div 60000) \<in> set closedTabs)"
    if ok: "fst ?sweep = Inr closedTabs"
  proof -
    from sweep_returns [OF assms(1) ok]
    have d: "detachLog (snd ?sweep) = detachLog st @ map (\<lambda>x. leafId (fst x)) ?tc"
      and c: "closedTabs = map (\<lambda>x. (snd (snd x), fst (snd x) div 60000)) ?tc"
      using ltc by simp_all
    have "leafId leaf \<in> set (detachLog (snd ?sweep))
           \<longleftrightarrow> t \<le> ?now - lastActivity \<or> leafId leaf \<in> set (detachLog st)"
      unfolding d using one by auto
    moreover have "(getLeafName leaf, (?now - lastActivity) div 60000) \<in> set closedTabs"
      if "t \<le> ?now - lastActivity"
      unfolding c using bwd [OF that] by force
    ultimately show ?thesis by blast
  qed
  show ?thesis using one bwd three four ltc by simp
qed

lemma threshold_boundary_example:
  "enabled (settings (test_plugin (Some 2000)))
   \<and> mkLeaf 4 False ''d.md'' \<in> set (rootLeaves test_workspace)
   \<and> \<not> pinned (mkLeaf 4 False ''d.md'')
   \<and> map_option leafId (getActiveRootLeaf test_workspace) \<noteq> Some 4
   \<and> leafActivityMap (test_plugin (Some 2000)) 4 = Some 2000
   \<and> dateNow (test_host [] False) (world (test_plugin (Some 2000))) - 2000 = 60000
   \<and> (mkLeaf 4 False ''d.md'', 60000, ''d.md'')
        \<in> set (leavesToClose (test_host [] False) test_workspace 60000 (test_plugin (Some 2000)))
   \<and> 4 \<notin> (\<lambda>x. leafId (fst x)) ` set (leavesToClose (test_host [] False) test_workspace 60001 (test_plugin (Some 2000)))
   \<and> 4 \<notin> set (detachLog (snd (checkAndCloseInactiveTabsWithResult (test_host [] False) test_runtime
        test_workspace 60001 (test_plugin (Some 2000)))))"
proof -
  have h: "enabled (settings (test_plugin (Some 2000)))"
    "mkLeaf 4 False ''d.md'' \<in> set (rootLeaves test_workspace)"
    "\<not> pinned (mkLeaf 4 False ''d.md'')"
    "map_option leafId (getActiveRootLeaf test_workspace) \<noteq> Some (leafId (mkLeaf 4 False ''d.md''))"
    "leafActivityMap (test_plugin (Some 2000)) (leafId (mkLeaf 4 False ''d.md'')) = Some 2000"
    "(2000::int) \<noteq> 0"
    by (simp_all add: test_defs getActiveRootLeaf_def isRootLeaf_def)
  have n: "dateNow (test_host [] False) (world (test_plugin (Some 2000))) = 62000"
    by (simp add: test_defs)
  have d: "detachLog (test_plugin (Some 2000)) = []" by (simp add: test_defs)
  show ?thesis
    using threshold_boundary [OF h, of "test_host [] False" 60000 test_runtime]
      threshold_boundary [OF h, of "test_host [] False" 60001 test_runtime] h n d
    by (simp add: mkLeaf_def getLeafName_def)
qed

lemma manualCheck_configured:
  "enabled (settings st) \<Longrightarrow>
     manualCheck H R W st
       = checkAndCloseInactiveTabsWithResult H R W (inactiveTimeoutMinutes (settings st) * 60 * 1000) st"
  by (simp add: manualCheck_def)

text \<open>
  Claim C2, on a scheduled sweep after the timeout was changed. The claim asks that in
  every sweep an unpinned, unfocused pane with a record be evictable exactly when
  \<open>now - lastActivity\<close> reaches the configured timeout. A tick of the timer sweeps with
  the timeout that \<open>startPeriodicCheck\<close> captured, and the settings tab does not restart
  the timer when the timeout changes: with the timeout configured at one minute
  (60000 ms) and tab 1 inactive for 61000 ms, the tick of the only registered timer
  sweeps with 86400000 ms, finds nothing evictable, logs and closes nothing, while a
  manual check at the same instant closes the tab.
\<close>

theorem stale_timer_misses_threshold:
  "enabled (settings test_retimed)
   \<and> inactiveTimeoutMinutes (settings test_retimed) * 60 * 1000 = 60000
   \<and> timers test_retimed = [(0, \<lparr>periodMs = 60000, capturedTimeoutMs = 86400000\<rparr>)]
   \<and> mkLeaf 1 False ''a.md'' \<in> set (rootLeaves test_workspace)
   \<and> \<not> pinned (mkLeaf 1 False ''a.md'')
   \<and> map_option leafId (getActiveRootLeaf test_workspace) = Some 3
   \<and> leafActivityMap test_retimed 1 = Some 1000
   \<and> dateNow (test_host [] False) (world test_retimed) - 1000 = 61000
   \<and> checkAndCloseInactiveTabsWithResult (test_host [] False) test_runtime test_workspace
        (capturedTimeoutMs \<lparr>periodMs = 60000, capturedTimeoutMs = 86400000\<rparr>) test_retimed
        = (Inr [], timerTick (test_host [] False) test_runtime test_workspace
             \<lparr>periodMs = 60000, capturedTimeoutMs = 86400000\<rparr> test_retimed)
   \<and> detachLog (timerTick (test_host [] False) test_runtime test_workspace
        \<lparr>periodMs = 60000, capturedTimeoutMs = 86400000\<rparr> test_retimed) = []
   \<and> history (timerTick (test_host [] False) test_runtime test_workspace
        \<lparr>periodMs = 60000, capturedTimeoutMs = 86400000\<rparr> test_retimed) = []
   \<and> fst (manualCheck (test_host [] False) test_runtime test_workspace test_retimed)
        = Inr [(''a.md'', 1)]"
  by (simp add: test_retimed_def test_running_def onChange_inactiveTimeoutMinutes_def saveSettings_def
      start_def startPeriodicCheck_def registerActiveLeafChangeListener_def initializeLeafTracking_def
      timerTick_def manualCheck_def sweep_defs history_defs test_defs prod_eq_iff)


section \<open>The grace period\<close>


lemma classifyLeaf_fresh:
  "act k = None \<or> act k = Some 0 \<or> act k = Some now \<Longrightarrow>
     fst (classifyLeaf now a t (act, tc) l) k = None
     \<or> fst (classifyLeaf now a t (act, tc) l) k = Some 0
     \<or> fst (classifyLeaf now a t (act, tc) l) k = Some now"
  by (auto simp: classifyLeaf_def Let_def split: if_splits option.splits)

lemma foldl_classify_fresh:
  "act k = None \<or> act k = Some 0 \<or> act k = Some now \<Longrightarrow>
     fst (foldl (classifyLeaf now a t) (act, tc) ls) k = None
     \<or> fst (foldl (classifyLeaf now a t) (act, tc) ls) k = Some 0
     \<or> fst (foldl (classifyLeaf now a t) (act, tc) ls) k = Some now"
proof (induction ls arbitrary: act tc)
  case Nil
  then show ?case by simp
next
  case (Cons l ls)
  obtain act' tc' where step: "classifyLeaf now a t (act, tc) l = (act', tc')"
    by (cases "classifyLeaf now a t (act, tc) l")
  have "act' k = None \<or> act' k = Some 0 \<or> act' k = Some now"
    using classifyLeaf_fresh [of act k now a t tc l] Cons.prems step by simp
  then show ?case using Cons.IH [of act' tc'] step by simp
qed

lemma sweep_fresh:
  assumes "leafActivityMap st k = None"
  shows "leafActivityMap (snd (checkAndCloseInactiveTabsWithResult H R W t st)) k = None
       \<or> leafActivityMap (snd (checkAndCloseInactiveTabsWithResult H R W t st)) k = Some 0
       \<or> leafActivityMap (snd (checkAndCloseInactiveTabsWithResult H R W t st)) k
            = Some (dateNow H (world st))"
proof (cases "enabled (settings st)")
  case False
  then show ?thesis using assms by (simp add: checkAndCloseInactiveTabsWithResult_def)
next
  case True
  show ?thesis
    using foldl_classify_fresh [of "leafActivityMap st" k "dateNow H (world st)"
        "getActiveRootLeaf W" t "[]" "rootLeaves W"] assms
    by (simp add: sweep_leafActivityMap [OF True] classifyLeaves_def)
qed

lemma leavesToClose_untracked:
  assumes "distinct (map leafId (rootLeaves W))"
    and "leafActivityMap st k = None \<or> leafActivityMap st k = Some 0"
  shows "k \<notin> (\<lambda>x. leafId (fst x)) ` set (leavesToClose H W t st)"
proof
  assume "k \<in> (\<lambda>x. leafId (fst x)) ` set (leavesToClose H W t st)"
  then obtain x where x: "x \<in> set (leavesToClose H W t st)" and i: "leafId (fst x) = k" by auto
  from x have "x \<in> set (snd (foldl (classifyLeaf (dateNow H (world st)) (getActiveRootLeaf W) t)
                       (leafActivityMap st, []) (rootLeaves W)))"
    by (auto simp: leavesToClose_def classifyLeaves_def split: if_splits)
  then have "x \<in> set []"
    using foldl_classify_untracked [of "leafActivityMap st" k "rootLeaves W" x "dateNow H (world st)"
        "getActiveRootLeaf W" t "[]"] assms i by blast
  then show False by simp
qed

lemma leavesToClose_recent:
  assumes "leafActivityMap st k = Some la" and "la \<noteq> 0" and "dateNow H (world st) - la < t"
  shows "k \<notin> (\<lambda>x. leafId (fst x)) ` set (leavesToClose H W t st)"
proof
  assume "k \<in> (\<lambda>x. leafId (fst x)) ` set (leavesToClose H W t st)"
  then obtain x where x: "x \<in> set (leavesToClose H W t st)" and i: "leafId (fst x) = k" by auto
  from x have "x \<in> set (snd (foldl (classifyLeaf (dateNow H (world st)) (getActiveRootLeaf W) t)
                       (leafActivityMap st, []) (rootLeaves W)))"
    by (auto simp: leavesToClose_def classifyLeaves_def split: if_splits)
  then have "t \<le> dateNow H (world st) - la"
    using foldl_classify_recorded [of "leafActivityMap st" k la x "dateNow H (world st)"
        "getActiveRootLeaf W" t "[]" "rootLeaves W"] assms(1,2) i by simp
  with assms(3) show False by simp
qed

text \<open>
  Claim C3. A leaf of the enumeration with no activity record is not in the evictable set
  of that sweep and is not closed by it. When the sweep reaches the record test for it
  (the sweep is enabled and the leaf is neither pinned nor focused, which are skipped
  before the test), it seeds the record with the current instant. Either way the leaf has
  its full grace period: a later sweep that finds the record as this one left it, less
  than its timeout after this sweep, does not put the leaf in its evictable set.
\<close>

theorem grace_period:
  assumes "distinct (map leafId (rootLeaves W))"
    and "leaf \<in> set (rootLeaves W)"
    and "leafActivityMap st (leafId leaf) = None"
  shows "leafId leaf \<notin> (\<lambda>x. leafId (fst x)) ` set (leavesToClose H W t st)
       \<and> (leafId leaf \<notin> set (detachLog st) \<longrightarrow>
            leafId leaf \<notin> set (detachLog (snd (checkAndCloseInactiveTabsWithResult H R W t st))))
       \<and> (enabled (settings st) \<and> \<not> pinned leaf
            \<and> map_option leafId (getActiveRootLeaf W) \<noteq> Some (leafId leaf) \<longrightarrow>
            leafActivityMap (snd (checkAndCloseInactiveTabsWithResult H R W t st)) (leafId leaf)
              = Some (dateNow H (world st)))
       \<and> (distinct (map leafId (rootLeaves W2))
            \<and> leafActivityMap st2 (leafId leaf)
                = leafActivityMap (snd (checkAndCloseInactiveTabsWithResult H R W t st)) (leafId leaf)
            \<and> dateNow H2 (world st2) - dateNow H (world st) < t2 \<longrightarrow>
            leafId leaf \<notin> (\<lambda>x. leafId (fst x)) ` set (leavesToClose H2 W2 t2 st2))"
proof -
  let ?k = "leafId leaf"
  let ?st' = "snd (checkAndCloseInactiveTabsWithResult H R W t st)"
  have one: "?k \<notin> (\<lambda>x. leafId (fst x)) ` set (leavesToClose H W t st)"
    using leavesToClose_untracked [of W st ?k H t] assms(1,3) by simp
  have two: "?k \<notin> set (detachLog ?st')" if "?k \<notin> set (detachLog st)"
    using one that sweep_detachLog [of H R W t st] by blast
  have three: "leafActivityMap ?st' ?k = Some (dateNow H (world st))"
    if "enabled (settings st)" "\<not> pinned leaf"
      "map_option leafId (getActiveRootLeaf W) \<noteq> Some ?k"
    using foldl_classify_seeds [of leaf "rootLeaves W" "leafActivityMap st" "dateNow H (world st)"
        "getActiveRootLeaf W" t "[]"] assms(2,3) that
    by (simp add: sweep_leafActivityMap classifyLeaves_def)
  have four: "?k \<notin> (\<lambda>x. leafId (fst x)) ` set (leavesToClose H2 W2 t2 st2)"
    if d: "distinct (map leafId (rootLeaves W2))"
      and m: "leafActivityMap st2 ?k = leafActivityMap ?st' ?k"
      and n: "dateNow H2 (world st2) - dateNow H (world st) < t2"
  proof -
    from sweep_fresh [OF assms(3), of H R W t] m
    consider "leafActivityMap st2 ?k = None \<or> leafActivityMap st2 ?k = Some 0"
      | "leafActivityMap st2 ?k = Some (dateNow H (world st))" "dateNow H (world st) \<noteq> 0"
      by force
    then show ?thesis
    proof cases
      case 1
      then show ?thesis using leavesToClose_untracked [OF d] by blast
    next
      case 2
      then show ?thesis using leavesToClose_recent [of st2 ?k "dateNow H (world st)" H2 t2 W2] n
        by blast
    qed
  qed
  show ?thesis using one two three four by blast
qed

theorem grace_period_witness:
  "distinct (map leafId (rootLeaves test_workspace))
   \<and> mkLeaf 4 False ''d.md'' \<in> set (rootLeaves test_workspace)
   \<and> leafActivityMap (test_plugin None) 4 = None
   \<and> 4 \<notin> (\<lambda>x. leafId (fst x)) ` set (leavesToClose (test_host [] False) test_workspace 60000 (test_plugin None))
   \<and> 4 \<notin> set (detachLog (snd (checkAndCloseInactiveTabsWithResult (test_host [] False) test_runtime
        test_workspace 60000 (test_plugin None))))
   \<and> leafActivityMap (snd (checkAndCloseInactiveTabsWithResult (test_host [] False) test_runtime
        test_workspace 60000 (test_plugin None))) 4 = Some 62000
   \<and> dateNow (test_host [] False) (world test_later) = 121999
   \<and> 4 \<notin> (\<lambda>x. leafId (fst x)) ` set (leavesToClose (test_host [] False) test_workspace 60000 test_later)"
proof -
  have h: "distinct (map leafId (rootLeaves test_workspace))"
    "mkLeaf 4 False ''d.md'' \<in> set (rootLeaves test_workspace)"
    "leafActivityMap (test_plugin None) (leafId (mkLeaf 4 False ''d.md'')) = None"
    by (simp_all add: test_defs)
  have g: "enabled (settings (test_plugin None))" "\<not> pinned (mkLeaf 4 False ''d.md'')"
    "map_option leafId (getActiveRootLeaf test_workspace) \<noteq> Some (leafId (mkLeaf 4 False ''d.md''))"
    "detachLog (test_plugin None) = []"
    "dateNow (test_host [] False) (world (test_plugin None)) = 62000"
    by (simp_all add: test_defs getActiveRootLeaf_def isRootLeaf_def)
  have l: "dateNow (test_host [] False) (world test_later) = 121999"
    "leafActivityMap test_later = leafActivityMap (snd (checkAndCloseInactiveTabsWithResult
        (test_host [] False) test_runtime test_workspace 60000 (test_plugin None)))"
    by (simp_all add: test_later_def Let_def test_host_def)
  show ?thesis
    using grace_period [OF h, of "test_host [] False" 60000 test_runtime test_workspace test_later
        "test_host [] False" 60000] h g l
    by (simp add: mkLeaf_def)
qed


section \<open>The bounded history\<close>


lemma trimHistory_pos:
  "0 < maxHistoryEntries s \<Longrightarrow> trimHistory s h = drop (length h - nat (maxHistoryEntries s)) h"
  by (auto simp: trimHistory_def js_slice_from_def Let_def max_def nat_diff_distrib')

lemma trimHistory_idem:
  "0 < maxHistoryEntries s \<Longrightarrow> trimHistory s (trimHistory s h) = trimHistory s h"
  by (simp add: trimHistory_pos)

lemma saveHistory_history:
  "history (snd (saveHistory H st)) =
     (if logHistory (settings st) then trimHistory (settings st) (history st) else history st)"
  by (simp add: saveHistory_def Let_def split: prod.splits sum.splits)

lemma addEntry_history:
  "logHistory (settings st) \<Longrightarrow>
     history (snd (addEntry H R e st))
       = trimHistory (settings st) (trimHistory (settings st) (history st @ [e]))"
proof -
  assume lh: "logHistory (settings st)"
  let ?st1 = "st\<lparr>history := trimHistory (settings st) (history st @ [e])\<rparr>"
  obtain r st2 where s: "saveHistory H ?st1 = (r, st2)" by (cases "saveHistory H ?st1")
  have "history st2 = trimHistory (settings st) (trimHistory (settings st) (history st @ [e]))"
    using saveHistory_history [of H ?st1] s lh by simp
  then show ?thesis using s lh
    by (cases r) (simp_all add: addEntry_def Let_def writeToFile_def)
qed

lemma addEntry_history_pos:
  "logHistory (settings st) \<Longrightarrow> 0 < maxHistoryEntries (settings st) \<Longrightarrow>
     history (snd (addEntry H R e st))
       = drop (length (history st @ [e]) - nat (maxHistoryEntries (settings st))) (history st @ [e])"
  by (simp add: addEntry_history trimHistory_idem) (simp add: trimHistory_pos)

lemma drop_last_append:
  "drop (length (drop (length xs - n) xs @ ys) - n) (drop (length xs - n) xs @ ys)
     = drop (length (xs @ ys) - n) (xs @ ys)"
  by (cases "length xs \<le> n") (auto simp: add.commute)

lemma addEntries_settings: "settings (addEntries H R es st) = settings st"
  by (induction es arbitrary: st) (simp_all add: addEntry_frame)

lemma addEntries_history:
  "logHistory (settings st) \<Longrightarrow> 0 < maxHistoryEntries (settings st) \<Longrightarrow>
     length (history st) \<le> nat (maxHistoryEntries (settings st)) \<Longrightarrow>
     history (addEntries H R es st)
       = drop (length (history st @ es) - nat (maxHistoryEntries (settings st))) (history st @ es)"
proof (induction es arbitrary: st)
  case Nil
  then show ?case by simp
next
  case (Cons e es)
  let ?n = "nat (maxHistoryEntries (settings st))"
  let ?st1 = "snd (addEntry H R e st)"
  have s1: "settings ?st1 = settings st" by (simp add: addEntry_frame)
  have h1: "history ?st1 = drop (length (history st @ [e]) - ?n) (history st @ [e])"
    using Cons.prems by (simp add: addEntry_history_pos)
  have "0 < ?n" using Cons.prems(2) by simp
  then have len: "length (history ?st1) \<le> ?n" using h1 by simp
  have "history (addEntries H R es ?st1)
          = drop (length (history ?st1 @ es) - ?n) (history ?st1 @ es)"
    using Cons.IH [of ?st1] Cons.prems(1,2) s1 len by simp
  also have "\<dots> = drop (length ((history st @ [e]) @ es) - ?n) ((history st @ [e]) @ es)"
    unfolding h1 by (rule drop_last_append)
  finally show ?case by simp
qed

text \<open>
  Claim C4. With \<open>logHistory\<close> on and a positive \<open>maxHistoryEntries\<close> (the settings tab
  accepts no other), after any sequence of appends to an empty history (so after each
  append of a longer sequence) the history holds exactly the last
  \<open>min (number appended) maxHistoryEntries\<close> entries appended, in insertion order, and
  \<open>getHistory\<close> returns them most recent first. With room for two entries, appending
  E1, E2, E3 leaves \<open>getHistory\<close> at [E3, E2].
\<close>

theorem fifo_trim:
  assumes "logHistory (settings st)"
    and "0 < maxHistoryEntries (settings st)"
    and "history st = []"
  shows "history (addEntries H R es st) = drop (length es - nat (maxHistoryEntries (settings st))) es
       \<and> length (history (addEntries H R es st)) = min (length es) (nat (maxHistoryEntries (settings st)))
       \<and> getHistory (addEntries H R es st)
            = rev (drop (length es - nat (maxHistoryEntries (settings st))) es)"
proof -
  have h: "history (addEntries H R es st) = drop (length es - nat (maxHistoryEntries (settings st))) es"
    using addEntries_history [of st H R es] assms by simp
  then show ?thesis by (auto simp: getHistory_def)
qed

theorem fifo_trim_witness:
  "logHistory (settings (test_plugin None))
   \<and> maxHistoryEntries (settings (test_plugin None)) = 2
   \<and> history (test_plugin None) = []
   \<and> history (addEntries (test_host [] False) test_runtime
        [mkEntry ''E1'', mkEntry ''E2'', mkEntry ''E3''] (test_plugin None))
        = [mkEntry ''E2'', mkEntry ''E3'']
   \<and> getHistory (addEntries (test_host [] False) test_runtime
        [mkEntry ''E1'', mkEntry ''E2'', mkEntry ''E3''] (test_plugin None))
        = [mkEntry ''E3'', mkEntry ''E2'']"
proof -
  have h: "logHistory (settings (test_plugin None))"
    "0 < maxHistoryEntries (settings (test_plugin None))"
    "history (test_plugin None) = []"
    by (simp_all add: test_defs)
  have m: "maxHistoryEntries (settings (test_plugin None)) = 2" by (simp add: test_defs)
  show ?thesis
    using fifo_trim [OF h, of "test_host [] False" test_runtime
        "[mkEntry ''E1'', mkEntry ''E2'', mkEntry ''E3'']"] h m
    by simp
qed


section \<open>A failing \<open>detach\<close>\<close>


lemma closeLoop_append:
  "closeLoop H R pre st c = (Inr c1, st1) \<Longrightarrow>
     closeLoop H R (pre @ post) st c = closeLoop H R post st1 c1"
proof (induction pre arbitrary: st c)
  case Nil
  then show ?case by simp
next
  case (Cons x xs)
  then show ?case
    by (auto simp: Let_def split: prod.splits option.splits)
qed

text \<open>
  Claim C5, as amended. The loop over the evictable set has no handler of its own: when
  \<open>leaf.detach()\<close> throws for an evictable leaf, the sweep ends there with that
  exception. The leaves before it stay logged and closed, and the history entry already
  appended for the failing leaf stays in the history; the evictable leaves after it are
  neither logged nor closed in this cycle, since the result does not depend on them.
\<close>

theorem detach_failure_ends_sweep:
  assumes "enabled (settings st)"
    and "leavesToClose H W t st = pre @ x # post"
    and "closeLoop H R pre
           (st\<lparr>leafActivityMap :=
                 fst (classifyLeaves (dateNow H (world st)) W t (leafActivityMap st))\<rparr>) []
         = (Inr closedTabs, st1)"
    and "addEntry H R (entryFor H st1 x) st1 = (None, st2)"
    and "leaf_detach H (leafId (fst x)) (world st2) = (Some e, w)"
  shows "checkAndCloseInactiveTabsWithResult H R W t st
           = (Inl e, st2\<lparr>detachLog := detachLog st2 @ [leafId (fst x)], world := w\<rparr>)
       \<and> history (snd (checkAndCloseInactiveTabsWithResult H R W t st)) = history st2"
proof -
  have "checkAndCloseInactiveTabsWithResult H R W t st = closeLoop H R (x # post) st1 closedTabs"
    using sweep_unfold [OF assms(1), of H R W t] assms(2) closeLoop_append [OF assms(3), of "x # post"]
    by simp
  also have "\<dots> = (Inl e, st2\<lparr>detachLog := detachLog st2 @ [leafId (fst x)], world := w\<rparr>)"
    using assms(4,5) by (simp add: Let_def)
  finally show ?thesis by simp
qed

text \<open>
  The claim as stated fails: tabs 1 and 4 are evictable and the host refuses to detach
  tab 1; the sweep ends with the exception, and tab 4 is neither logged nor detached.
\<close>

theorem detach_failure_counterexample:
  "leavesToClose (test_host [1] False) test_workspace 60000 (test_plugin (Some 2000))
     = [(mkLeaf 1 False ''a.md'', 61000, ''a.md''), (mkLeaf 4 False ''d.md'', 60000, ''d.md'')]
   \<and> fst (checkAndCloseInactiveTabsWithResult (test_host [1] False) test_runtime test_workspace 60000
        (test_plugin (Some 2000))) = Inl (ErrorObj ''detach failed'')
   \<and> map fileName (history (snd (checkAndCloseInactiveTabsWithResult (test_host [1] False) test_runtime
        test_workspace 60000 (test_plugin (Some 2000))))) = [''a.md'']
   \<and> detachLog (snd (checkAndCloseInactiveTabsWithResult (test_host [1] False) test_runtime
        test_workspace 60000 (test_plugin (Some 2000)))) = [1]
   \<and> gone (world (snd (checkAndCloseInactiveTabsWithResult (test_host [1] False) test_runtime
        test_workspace 60000 (test_plugin (Some 2000))))) = []"
  by (simp add: sweep_defs history_defs test_defs)

text \<open>An instance of the amended claim: the host refuses to detach tab 4, the second one.\<close>

theorem detach_failure_ends_sweep_witness:
  "enabled (settings (test_plugin (Some 2000)))
   \<and> leavesToClose (test_host [4] False) test_workspace 59000 (test_plugin (Some 2000))
       = [(mkLeaf 1 False ''a.md'', 61000, ''a.md'')] @ (mkLeaf 4 False ''d.md'', 60000, ''d.md'') # []
   \<and> fst (checkAndCloseInactiveTabsWithResult (test_host [4] False) test_runtime test_workspace 59000
        (test_plugin (Some 2000))) = Inl (ErrorObj ''detach failed'')
   \<and> map fileName (history (snd (checkAndCloseInactiveTabsWithResult (test_host [4] False) test_runtime
        test_workspace 59000 (test_plugin (Some 2000))))) = [''a.md'', ''d.md'']
   \<and> detachLog (snd (checkAndCloseInactiveTabsWithResult (test_host [4] False) test_runtime
        test_workspace 59000 (test_plugin (Some 2000)))) = [1, 4]
   \<and> gone (world (snd (checkAndCloseInactiveTabsWithResult (test_host [4] False) test_runtime
        test_workspace 59000 (test_plugin (Some 2000))))) = [1]"
proof -
  let ?H = "test_host [4] False"
  let ?st = "test_plugin (Some 2000)"
  let ?a = "(mkLeaf 1 False ''a.md'', 61000::int, ''a.md'')"
  let ?x = "(mkLeaf 4 False ''d.md'', 60000::int, ''d.md'')"
  let ?sa = "?st\<lparr>leafActivityMap :=
                 fst (classifyLeaves (dateNow ?H (world ?st)) test_workspace 59000 (leafActivityMap ?st))\<rparr>"
  define sb where "sb = snd (closeLoop ?H test_runtime [?a] ?sa [])"
  define sc where "sc = snd (addEntry ?H test_runtime (entryFor ?H sb ?x) sb)"
  have e: "enabled (settings ?st)" by (simp add: test_defs)
  have l: "leavesToClose ?H test_workspace 59000 ?st = [?a] @ ?x # []"
    by (simp add: sweep_defs test_defs)
  have "fst (closeLoop ?H test_runtime [?a] ?sa []) = Inr [(''a.md'', 1)]"
    by (simp add: sweep_defs history_defs test_defs)
  then have p: "closeLoop ?H test_runtime [?a] ?sa [] = (Inr [(''a.md'', 1)], sb)"
    by (simp add: prod_eq_iff sb_def)
  have h1: "history sb = [\<lparr>timestamp = 62000, fileName = ''a.md'', inactiveTimeMinutes = 61 / 60,
                filePath = Some ''notes/a.md''\<rparr>]"
    and d1: "detachLog sb = [1]" and g1: "gone (world sb) = [1]"
    and s1: "settings sb = settings ?st"
    by (simp_all add: sb_def sweep_defs history_defs test_defs)
  have "fst (addEntry ?H test_runtime (entryFor ?H sb ?x) sb) = None"
    using s1 by (simp add: history_defs test_defs split: prod.splits)
  then have a: "addEntry ?H test_runtime (entryFor ?H sb ?x) sb = (None, sc)"
    by (simp add: prod_eq_iff sc_def)
  have h2: "map fileName (history sc) = [''a.md'', ''d.md'']"
    using s1 h1 by (simp add: sc_def history_defs test_defs entryFor_def split: prod.splits)
  have d2: "detachLog sc = [1]" and g2: "gone (world sc) = [1]"
    using d1 g1 s1 by (simp_all add: sc_def addEntry_frame history_defs test_defs split: prod.splits)
  have dt: "leaf_detach ?H (leafId (fst ?x)) (world sc) = (Some (ErrorObj ''detach failed''), world sc)"
    by (simp add: test_host_def mkLeaf_def)
  have i: "leafId (fst ?x) = 4" by (simp add: mkLeaf_def)
  from detach_failure_ends_sweep [OF e l p a dt, unfolded i]
  show ?thesis using e l h2 d2 g2 by simp
qed


section \<open>Appending with history logging off\<close>


lemma closeLoop_nolog:
  "\<not> logHistory (settings st) \<Longrightarrow> (\<And>i w. fst (leaf_detach H i w) = None) \<Longrightarrow>
     fst (closeLoop H R xs st c) = Inr (c @ map (\<lambda>x. (snd (snd x), fst (snd x) div 60000)) xs)
     \<and> history (snd (closeLoop H R xs st c)) = history st
     \<and> detachLog (snd (closeLoop H R xs st c)) = detachLog st @ map (\<lambda>x. leafId (fst x)) xs
     \<and> world (snd (closeLoop H R xs st c))
          = foldl (\<lambda>w x. snd (leaf_detach H (leafId (fst x)) w)) (world st) xs"
proof (induction xs arbitrary: st c)
  case Nil
  then show ?case by simp
next
  case (Cons x xs)
  let ?st2 = "st\<lparr>detachLog := detachLog st @ [leafId (fst x)]\<rparr>"
  obtain r w where d: "leaf_detach H (leafId (fst x)) (world st) = (r, w)"
    by (cases "leaf_detach H (leafId (fst x)) (world st)")
  have r: "r = None" using Cons.prems(2) [of "leafId (fst x)" "world st"] d by simp
  have a: "addEntry H R (entryFor H st x) st = (None, st)"
    using Cons.prems(1) by (simp add: addEntry_def)
  have step: "closeLoop H R (x # xs) st c
      = closeLoop H R xs (?st2\<lparr>world := w\<rparr>) (c @ [(snd (snd x), fst (snd x) div 60000)])"
    using a d r by (simp add: Let_def)
  have "\<not> logHistory (settings (?st2\<lparr>world := w\<rparr>))" using Cons.prems(1) by simp
  from Cons.IH [OF this Cons.prems(2), of "c @ [(snd (snd x), fst (snd x) div 60000)]"]
  show ?case using step d by simp
qed

text \<open>
  Claim C6. With \<open>logHistory\<close> off, \<open>addEntry\<close> returns at once and leaves the whole
  state as it was, in both revisions: the entry is not added to the history, no host call
  is made, so nothing is persisted and nothing is written to the mirror file. The
  eviction still happens: in a sweep whose \<open>detach\<close> calls succeed, every evictable
  leaf is detached, the history stays as it was, and the world changes through the
  \<open>detach\<close> calls only.
\<close>

theorem disabled_logging_drops_entry:
  assumes "\<not> logHistory (settings st)"
  shows "addEntry H R entry st = (None, st)
       \<and> addEntry_v0 H R entry st = (None, st)
       \<and> (enabled (settings st) \<and> (\<forall>i w. fst (leaf_detach H i w) = None) \<longrightarrow>
            history (snd (checkAndCloseInactiveTabsWithResult H R W t st)) = history st
            \<and> detachLog (snd (checkAndCloseInactiveTabsWithResult H R W t st))
                = detachLog st @ map (\<lambda>x. leafId (fst x)) (leavesToClose H W t st)
            \<and> world (snd (checkAndCloseInactiveTabsWithResult H R W t st))
                = foldl (\<lambda>w x. snd (leaf_detach H (leafId (fst x)) w)) (world st)
                    (leavesToClose H W t st))"
proof -
  have one: "addEntry H R entry st = (None, st)" using assms by (simp add: addEntry_def)
  have two: "addEntry_v0 H R entry st = (None, st)" using assms by (simp add: addEntry_v0_def)
  have three: "history (snd (checkAndCloseInactiveTabsWithResult H R W t st)) = history st
            \<and> detachLog (snd (checkAndCloseInactiveTabsWithResult H R W t st))
                = detachLog st @ map (\<lambda>x. leafId (fst x)) (leavesToClose H W t st)
            \<and> world (snd (checkAndCloseInactiveTabsWithResult H R W t st))
                = foldl (\<lambda>w x. snd (leaf_detach H (leafId (fst x)) w)) (world st)
                    (leavesToClose H W t st)"
    if en: "enabled (settings st)" and ok: "\<forall>i w. fst (leaf_detach H i w) = None"
  proof -
    let ?st0 = "st\<lparr>leafActivityMap :=
                 fst (classifyLeaves (dateNow H (world st)) W t (leafActivityMap st))\<rparr>"
    have "\<not> logHistory (settings ?st0)" using assms by simp
    from closeLoop_nolog [OF this, of H R "leavesToClose H W t st" "[]"] ok
    show ?thesis by (simp add: sweep_unfold [OF en])
  qed
  show ?thesis using one two three by blast
qed

theorem disabled_logging_drops_entry_witness:
  "\<not> logHistory (settings test_quiet) \<and> enabled (settings test_quiet)
   \<and> addEntry (test_host [] False) test_runtime (mkEntry ''E1'') test_quiet = (None, test_quiet)
   \<and> history test_quiet = [] \<and> world test_quiet = test_world0
   \<and> leavesToClose (test_host [] False) test_workspace 60000 test_quiet
        = [(mkLeaf 1 False ''a.md'', 61000, ''a.md'')]
   \<and> history (snd (checkAndCloseInactiveTabsWithResult (test_host [] False) test_runtime
        test_workspace 60000 test_quiet)) = []
   \<and> detachLog (snd (checkAndCloseInactiveTabsWithResult (test_host [] False) test_runtime
        test_workspace 60000 test_quiet)) = [1]
   \<and> world (snd (checkAndCloseInactiveTabsWithResult (test_host [] False) test_runtime
        test_workspace 60000 test_quiet)) = test_world0\<lparr>gone := [1]\<rparr>"
proof -
  have h: "\<not> logHistory (settings test_quiet)" by (simp add: test_quiet_def test_defs)
  have g: "enabled (settings test_quiet)" "\<forall>i w. fst (leaf_detach (test_host [] False) i w) = None"
    "history test_quiet = []" "world test_quiet = test_world0" "detachLog test_quiet = []"
    by (simp_all add: test_quiet_def test_defs)
  have l: "leavesToClose (test_host [] False) test_workspace 60000 test_quiet
        = [(mkLeaf 1 False ''a.md'', 61000, ''a.md'')]"
    by (simp add: test_quiet_def sweep_defs test_defs)
  have d: "snd (leaf_detach (test_host [] False) 1 test_world0) = test_world0\<lparr>gone := [1]\<rparr>"
    by (simp add: test_defs)
  show ?thesis
    using disabled_logging_drops_entry [OF h, of "test_host [] False" test_runtime "mkEntry ''E1''"
        test_workspace 60000] h g l d
    by (simp add: mkLeaf_def)
qed


section \<open>Failures of the file mirror\<close>


lemma saveHistory_settings: "settings (snd (saveHistory H st)) = settings st"
  by (simp add: saveHistory_def Let_def split: prod.splits sum.splits)

text \<open>
  Claim C7. With \<open>logHistory\<close> on, whatever the vault calls of the host do, \<open>addEntry\<close>
  ends as its persistence step \<open>saveHistory\<close> ended (no exception of the mirror step
  leaves it) and the history is the trimmed history with the new entry, in both
  revisions. In the race (the file is not there when looked up, \<open>vault.create\<close> throws an
  \<open>Error\<close> whose message includes "already exists", and the file is there when looked up
  again) the rendered line is appended to the file and \<open>addEntry\<close> returns normally.
\<close>

theorem mirror_failures_isolated:
  assumes "logHistory (settings st)"
    and "saveHistory H (st\<lparr>history := trimHistory (settings st) (history st @ [entry])\<rparr>) = (r, saved)"
    and "path = mirrorPath R (settings st)"
    and "line = renderLine R (toLocaleString R (timestamp entry)) entry"
  shows "fst (addEntry H R entry st) = r
       \<and> history (snd (addEntry H R entry st))
            = trimHistory (settings st) (trimHistory (settings st) (history st @ [entry]))
       \<and> fst (addEntry_v0 H R entry st) = r
       \<and> history (snd (addEntry_v0 H R entry st))
            = trimHistory (settings st) (trimHistory (settings st) (history st @ [entry]))
       \<and> (logToFile (settings st) \<and> r = None
            \<and> getAbstractFileByPath H path (world saved) \<noteq> Some TFile
            \<and> vault_create H path (logFileContent line) (ensureFolder H path (world saved))
                 = (Some (ErrorObj m), wb)
            \<and> str_includes m ''already exists''
            \<and> getAbstractFileByPath H path wb = Some TFile \<longrightarrow>
            snd (addEntry H R entry st) = saved\<lparr>world := snd (vault_append H path line wb)\<rparr>)
       \<and> (logToFile (settings st) \<and> r = None
            \<and> getAbstractFileByPath H path (world saved) = None
            \<and> ensureFolder_v0 H path (world saved) = (None, wa)
            \<and> vault_create H path (logFileContent line) wa = (Some (ErrorObj m), wb)
            \<and> str_includes m ''already exists''
            \<and> getAbstractFileByPath H path wb = Some TFile \<longrightarrow>
            snd (addEntry_v0 H R entry st) = saved\<lparr>world := snd (vault_append H path line wb)\<rparr>)"
proof -
  let ?st1 = "st\<lparr>history := trimHistory (settings st) (history st @ [entry])\<rparr>"
  have s2: "settings saved = settings st"
    using saveHistory_settings [of H ?st1] assms(2) by simp
  have h2: "history saved = trimHistory (settings st) (trimHistory (settings st) (history st @ [entry]))"
    using saveHistory_history [of H ?st1] assms(1,2) by simp
  have one: "fst (addEntry H R entry st) = r"
    using assms(1,2) by (cases r) (simp_all add: addEntry_def Let_def)
  have two: "history (snd (addEntry H R entry st))
            = trimHistory (settings st) (trimHistory (settings st) (history st @ [entry]))"
    using assms(1) by (rule addEntry_history)
  have three: "fst (addEntry_v0 H R entry st) = r"
    using assms(1,2) by (cases r) (simp_all add: addEntry_v0_def Let_def)
  have four: "history (snd (addEntry_v0 H R entry st))
            = trimHistory (settings st) (trimHistory (settings st) (history st @ [entry]))"
    using assms(1,2) h2 by (cases r) (simp_all add: addEntry_v0_def Let_def writeToFile_v0_def)
  have five: "logToFile (settings st) \<and> r = None
            \<and> getAbstractFileByPath H path (world saved) \<noteq> Some TFile
            \<and> vault_create H path (logFileContent line) (ensureFolder H path (world saved))
                 = (Some (ErrorObj m), wb)
            \<and> str_includes m ''already exists''
            \<and> getAbstractFileByPath H path wb = Some TFile \<longrightarrow>
            snd (addEntry H R entry st) = saved\<lparr>world := snd (vault_append H path line wb)\<rparr>"
    using assms s2
    by (simp add: addEntry_def Let_def writeToFile_def writeToFile_try_def isAlreadyExists_def)
  have six: "logToFile (settings st) \<and> r = None
            \<and> getAbstractFileByPath H path (world saved) = None
            \<and> ensureFolder_v0 H path (world saved) = (None, wa)
            \<and> vault_create H path (logFileContent line) wa = (Some (ErrorObj m), wb)
            \<and> str_includes m ''already exists''
            \<and> getAbstractFileByPath H path wb = Some TFile \<longrightarrow>
            snd (addEntry_v0 H R entry st) = saved\<lparr>world := snd (vault_append H path line wb)\<rparr>"
    using assms s2
    by (simp add: addEntry_v0_def Let_def writeToFile_v0_def writeToFile_try_v0_def
        messageIncludes_v0_def)
  show ?thesis using one two three four five six by (intro conjI) assumption+
qed

theorem mirror_failures_isolated_witness:
  "logHistory (settings test_mirroring) \<and> logToFile (settings test_mirroring)
   \<and> mirrorPath test_runtime (settings test_mirroring) = ''system/auto-close-tabs-history.md''
   \<and> getAbstractFileByPath (test_host [] True) ''system/auto-close-tabs-history.md'' test_world0 = None
   \<and> addEntry (test_host [] True) test_runtime (mkEntry ''E1'') test_mirroring
        = (None, test_mirroring
             \<lparr>history := [mkEntry ''E1''],
              world := test_world0
                \<lparr>stored := Some \<lparr>settingsKeys = None, closedTabsHistory = Some [mkEntry ''E1'']\<rparr>,
                 folders := [''system''],
                 files := [(''system/auto-close-tabs-history.md'', ''other'' @ test_line)]\<rparr>\<rparr>)"
proof -
  let ?H = "test_host [] True"
  let ?p = "''system/auto-close-tabs-history.md''"
  define sb where "sb = test_mirroring
             \<lparr>history := [mkEntry ''E1''],
              world := test_world0
                \<lparr>stored := Some \<lparr>settingsKeys = None, closedTabsHistory = Some [mkEntry ''E1'']\<rparr>\<rparr>\<rparr>"
  have h: "logHistory (settings test_mirroring)" by (simp add: test_mirroring_def test_defs)
  have f: "logToFile (settings test_mirroring)" by (simp add: test_mirroring_def test_defs)
  have s: "saveHistory ?H (test_mirroring\<lparr>history :=
             trimHistory (settings test_mirroring) (history test_mirroring @ [mkEntry ''E1''])\<rparr>)
           = (None, sb)"
    by (simp add: sb_def test_mirroring_def saveHistory_def trimHistory_def js_slice_from_def test_defs)
  have p: "?p = mirrorPath test_runtime (settings test_mirroring)"
    by (simp add: mirrorPath_def test_mirroring_def test_defs)
  have l: "test_line = renderLine test_runtime (toLocaleString test_runtime (timestamp (mkEntry ''E1'')))
             (mkEntry ''E1'')"
    by (simp add: test_line_def mkEntry_def)
  have w: "world sb = test_world0
                \<lparr>stored := Some \<lparr>settingsKeys = None, closedTabsHistory = Some [mkEntry ''E1'']\<rparr>\<rparr>"
    by (simp add: sb_def)
  have g1: "getAbstractFileByPath ?H ?p (world sb) \<noteq> Some TFile"
    and g0: "getAbstractFileByPath ?H ?p test_world0 = None"
    by (simp_all add: w test_host_def test_world0_def)
  define wf where "wf = ensureFolder ?H ?p (world sb)"
  have wf: "wf = (world sb)\<lparr>folders := [''system'']\<rparr>"
    by (simp add: wf_def w ensureFolder_def test_host_def test_world0_def Let_def)
  define wc where "wc = wf\<lparr>files := [(?p, ''other'')]\<rparr>"
  have c: "vault_create ?H ?p (logFileContent test_line) (ensureFolder ?H ?p (world sb))
             = (Some (ErrorObj ''File already exists.''), wc)"
    unfolding wf_def [symmetric] by (simp add: wc_def wf w test_host_def test_world0_def)
  have i: "str_includes ''File already exists.'' ''already exists''" by simp
  have g2: "getAbstractFileByPath ?H ?p wc = Some TFile"
    by (simp add: wc_def test_host_def)
  have a: "snd (vault_append ?H ?p test_line wc) = wc\<lparr>files := [(?p, ''other'' @ test_line)]\<rparr>"
    by (simp add: wc_def test_host_def)
  from mirror_failures_isolated [OF h s p l, where m = "''File already exists.''" and wb = wc]
    f g1 c i g2
  have "fst (addEntry ?H test_runtime (mkEntry ''E1'') test_mirroring) = None"
    and "snd (addEntry ?H test_runtime (mkEntry ''E1'') test_mirroring)
          = sb\<lparr>world := snd (vault_append ?H ?p test_line wc)\<rparr>"
    by blast+
  then have "addEntry ?H test_runtime (mkEntry ''E1'') test_mirroring
          = (None, sb\<lparr>world := wc\<lparr>files := [(?p, ''other'' @ test_line)]\<rparr>\<rparr>)"
    using a by (simp add: prod_eq_iff)
  then show ?thesis using h f p g0
    by (simp add: sb_def wc_def wf w test_world0_def)
qed


section \<open>Exporting the history\<close>

lemma exportHistory_read_only:
  "snd (exportHistory R st) = st
   \<and> fst (exportHistory R (snd (exportHistory R st))) = fst (exportHistory R st)"
  by (simp add: exportHistory_def)

lemma exportHistory_v0_reverses:
  "history st \<noteq> [] \<Longrightarrow> history (snd (exportHistory_v0 R st)) = rev (history st)"
  by (simp add: exportHistory_v0_def)

lemmas export_defs =
  exportText_def groupByDate_def sortDates_def renderGroup_def renderLine_def nl_def bq_def
  string_of_nat.simps

text \<open>
  Claim C8, on the revision in src/utils/historyManager.ts. The claim asks that
  \<open>exportHistory\<close> called twice in a row return the same text and leave the stored
  order alone. That revision reverses the stored array in place: with two entries of one
  day stored as [E1, E2], the first call leaves [E2, E1] behind and the second call
  returns a different text. The current revision, which iterates over a copy, leaves the
  state as it was and returns the same text again.
\<close>

theorem exportHistory_v0_not_read_only:
  "history (snd (exportHistory_v0 test_runtime test_two)) = [mkEntry ''E2'', mkEntry ''E1'']
   \<and> fst (exportHistory_v0 test_runtime (snd (exportHistory_v0 test_runtime test_two)))
        \<noteq> fst (exportHistory_v0 test_runtime test_two)
   \<and> history (snd (exportHistory test_runtime test_two)) = [mkEntry ''E1'', mkEntry ''E2'']
   \<and> fst (exportHistory test_runtime (snd (exportHistory test_runtime test_two)))
        = fst (exportHistory test_runtime test_two)"
  by (simp add: exportHistory_v0_def exportHistory_def test_two_def export_defs test_defs)

section \<open>Changing the scheduling settings\<close>

lemma onChange_inactiveTimeoutMinutes_no_restart:
  "timers (snd (onChange_inactiveTimeoutMinutes H W v st)) = timers st
   \<and> checkInterval (snd (onChange_inactiveTimeoutMinutes H W v st)) = checkInterval st"
  by (simp add: onChange_inactiveTimeoutMinutes_def saveSettings_def split: option.splits prod.splits)

lemma onChange_enabled_restarts:
  assumes "fst (onChange_enabled H W v st) = None"
  shows "timers (snd (onChange_enabled H W v st))
           = (case checkInterval st of None \<Rightarrow> timers st
              | Some i \<Rightarrow> filter (\<lambda>(j, t). j \<noteq> i) (timers st))
             @ (if v then [(nextTimerId st,
                            \<lparr>periodMs = checkIntervalSeconds (settings st) * 1000,
                             capturedTimeoutMs = inactiveTimeoutMinutes (settings st) * 60 * 1000\<rparr>)]
                else [])"
  using assms
  by (auto simp: onChange_enabled_def saveSettings_def updateSettings_def start_def
      stop_def startPeriodicCheck_def registerActiveLeafChangeListener_def initializeLeafTracking_def
      Let_def split: option.splits prod.splits)

lemma onChange_checkIntervalSeconds_restarts:
  assumes "0 < n" and "fst (onChange_checkIntervalSeconds H W (Some n) st) = None"
    and "enabled (settings st)"
  shows "timers (snd (onChange_checkIntervalSeconds H W (Some n) st))
           = (case checkInterval st of None \<Rightarrow> timers st
              | Some i \<Rightarrow> filter (\<lambda>(j, t). j \<noteq> i) (timers st))
             @ [(nextTimerId st,
                 \<lparr>periodMs = n * 1000,
                  capturedTimeoutMs = inactiveTimeoutMinutes (settings st) * 60 * 1000\<rparr>)]"
  using assms
  by (auto simp: onChange_checkIntervalSeconds_def saveSettings_def updateSettings_def start_def
      stop_def startPeriodicCheck_def registerActiveLeafChangeListener_def initializeLeafTracking_def
      Let_def split: option.splits prod.splits)

text \<open>
  Claim C9, at the timeout field of the settings tab. The claim asks that a change of
  the timeout restart the timer, so that later scheduled sweeps use the new value. The
  handler of the timeout field saves the settings and does not call \<open>updateSettings\<close>
  (the handlers of the toggle and of the interval field do): after the timeout went from
  1440 minutes to one minute, the interval registered before is still the only one, its
  callback still sweeps with 86400000 ms, and its tick leaves alone a tab that is 61
  seconds inactive, which a manual check (reading the current setting) closes.
\<close>

theorem timeout_change_keeps_running_timer:
  "timers test_running = [(0, \<lparr>periodMs = 60000, capturedTimeoutMs = 86400000\<rparr>)]
   \<and> fst (onChange_inactiveTimeoutMinutes (test_host [] False) test_workspace (Some 1) test_running) = None
   \<and> inactiveTimeoutMinutes (settings test_retimed) = 1
   \<and> checkInterval test_retimed = Some 0
   \<and> timers test_retimed = [(0, \<lparr>periodMs = 60000, capturedTimeoutMs = 86400000\<rparr>)]
   \<and> detachLog (timerTick (test_host [] False) test_runtime test_workspace
        \<lparr>periodMs = 60000, capturedTimeoutMs = 86400000\<rparr> test_retimed) = []
   \<and> detachLog (snd (manualCheck (test_host [] False) test_runtime test_workspace test_retimed)) = [1]"
  by (simp add: test_retimed_def test_running_def onChange_inactiveTimeoutMinutes_def saveSettings_def
      start_def startPeriodicCheck_def registerActiveLeafChangeListener_def initializeLeafTracking_def
      timerTick_def manualCheck_def sweep_defs history_defs test_defs)

section \<open>Starting and restarting\<close>

lemma saveSettings_leafActivityMap:
  "leafActivityMap (snd (saveSettings H st)) = leafActivityMap st"
  by (simp add: saveSettings_def split: prod.splits)

lemma updateSettings_map:
  "leafActivityMap (updateSettings H W st) k
     = (case leafActivityMap st k of
          Some lastActivity \<Rightarrow> Some lastActivity
        | None \<Rightarrow> if k \<in> leafId ` set (rootLeaves W) then Some (dateNow H (world st)) else None)"
proof -
  have s: "leafActivityMap (start H W st) = leafActivityMap (initializeLeafTracking H W st)"
    for st :: "'a plugin"
    by (simp add: start_def startPeriodicCheck_def registerActiveLeafChangeListener_def Let_def)
  have m: "leafActivityMap (stop st) = leafActivityMap st" and w: "world (stop st) = world st"
    by (simp_all add: stop_def split: option.splits)
  show ?thesis
    using initializeLeafTracking_map [of H W "stop st" k] unfolding updateSettings_def s m w .
qed

text \<open>
  Claim C10. \<open>start\<close>, and \<open>updateSettings\<close> (stop, then start), never overwrite an
  activity record: a leaf with a record keeps it, a leaf of the main area without one
  gets the current instant, and no other record is made. So a record also survives each
  handler of the settings tab, whether it restarts the manager or not.
\<close>

theorem restart_keeps_records:
  "leafActivityMap (start H W st) k
     = (case leafActivityMap st k of
          Some lastActivity \<Rightarrow> Some lastActivity
        | None \<Rightarrow> if k \<in> leafId ` set (rootLeaves W) then Some (dateNow H (world st)) else None)
   \<and> leafActivityMap (updateSettings H W st) k
     = (case leafActivityMap st k of
          Some lastActivity \<Rightarrow> Some lastActivity
        | None \<Rightarrow> if k \<in> leafId ` set (rootLeaves W) then Some (dateNow H (world st)) else None)
   \<and> (leafActivityMap st k = Some lastActivity \<longrightarrow>
        leafActivityMap (snd (onChange_enabled H W v st)) k = Some lastActivity
        \<and> leafActivityMap (snd (onChange_checkIntervalSeconds H W n st)) k = Some lastActivity
        \<and> leafActivityMap (snd (onChange_inactiveTimeoutMinutes H W n st)) k = Some lastActivity)"
proof -
  have s: "leafActivityMap (start H W st) k
     = (case leafActivityMap st k of
          Some lastActivity \<Rightarrow> Some lastActivity
        | None \<Rightarrow> if k \<in> leafId ` set (rootLeaves W) then Some (dateNow H (world st)) else None)"
    using initializeLeafTracking_map [of H W st k]
    by (simp add: start_def startPeriodicCheck_def registerActiveLeafChangeListener_def Let_def)
  have u: "leafActivityMap (updateSettings H W st) k
     = (case leafActivityMap st k of
          Some lastActivity \<Rightarrow> Some lastActivity
        | None \<Rightarrow> if k \<in> leafId ` set (rootLeaves W) then Some (dateNow H (world st)) else None)"
    by (rule updateSettings_map)
  have h: "leafActivityMap (snd (onChange_enabled H W v st)) k = Some lastActivity
        \<and> leafActivityMap (snd (onChange_checkIntervalSeconds H W n st)) k = Some lastActivity
        \<and> leafActivityMap (snd (onChange_inactiveTimeoutMinutes H W n st)) k = Some lastActivity"
    if r: "leafActivityMap st k = Some lastActivity"
  proof -
    have keep: "leafActivityMap (updateSettings H W st') k = Some lastActivity"
      if "leafActivityMap st' k = Some lastActivity" for st' :: "'a plugin"
      using that by (simp add: updateSettings_map)
    have sv: "leafActivityMap (snd (saveSettings H st')) k = Some lastActivity"
      if "leafActivityMap st' k = Some lastActivity" for st' :: "'a plugin"
      using that by (simp add: saveSettings_leafActivityMap)
    have e: "leafActivityMap (snd (onChange_enabled H W v st)) k = Some lastActivity"
    proof -
      let ?st' = "st\<lparr>settings := (settings st)\<lparr>enabled := v\<rparr>\<rparr>"
      obtain x st1 where o: "saveSettings H ?st' = (x, st1)" by (cases "saveSettings H ?st'")
      have "leafActivityMap st1 k = Some lastActivity" using sv [of ?st'] r o by simp
      then show ?thesis using o keep [of st1]
        by (cases x) (simp_all add: onChange_enabled_def)
    qed
    have c: "leafActivityMap (snd (onChange_checkIntervalSeconds H W n st)) k = Some lastActivity"
    proof (cases n)
      case None
      then show ?thesis using r by (simp add: onChange_checkIntervalSeconds_def)
    next
      case (Some i)
      let ?st' = "st\<lparr>settings := (settings st)\<lparr>checkIntervalSeconds := i\<rparr>\<rparr>"
      obtain x st1 where o: "saveSettings H ?st' = (x, st1)" by (cases "saveSettings H ?st'")
      have "leafActivityMap st1 k = Some lastActivity" using sv [of ?st'] r o by simp
      then show ?thesis using o keep [of st1] Some r
        by (cases x) (simp_all add: onChange_checkIntervalSeconds_def)
    qed
    have t: "leafActivityMap (snd (onChange_inactiveTimeoutMinutes H W n st)) k = Some lastActivity"
    proof (cases n)
      case None
      then show ?thesis using r by (simp add: onChange_inactiveTimeoutMinutes_def)
    next
      case (Some i)
      let ?st' = "st\<lparr>settings := (settings st)\<lparr>inactiveTimeoutMinutes := i\<rparr>\<rparr>"
      show ?thesis using sv [of ?st'] r Some
        by (simp add: onChange_inactiveTimeoutMinutes_def)
    qed
    show ?thesis using e c t by (intro conjI) assumption+
  qed
  show ?thesis using s u h by (intro conjI impI) (assumption | blast)+
qed

theorem restart_keeps_records_witness:
  "leafActivityMap (test_plugin None) 1 = Some 1000
   \<and> leafActivityMap (test_plugin None) 4 = None
   \<and> dateNow (test_host [] False) (world (test_plugin None)) = 62000
   \<and> leafActivityMap (updateSettings (test_host [] False) test_workspace (test_plugin None)) 1 = Some 1000
   \<and> leafActivityMap (updateSettings (test_host [] False) test_workspace (test_plugin None)) 4 = Some 62000
   \<and> leafActivityMap (updateSettings (test_host [] False) test_workspace (test_plugin None)) 5 = None
   \<and> leafActivityMap (snd (onChange_checkIntervalSeconds (test_host [] False) test_workspace (Some 30)
        (test_plugin None))) 1 = Some 1000"
  using restart_keeps_records [of "test_host [] False" test_workspace "test_plugin None" 1 1000]
    restart_keeps_records [of "test_host [] False" test_workspace "test_plugin None" 4]
    restart_keeps_records [of "test_host [] False" test_workspace "test_plugin None" 5]
  by (simp add: test_defs)

end
